theory Spec2Isabelle
  imports Main "HOL-Library.AList"
begin

section \<open>Calendar days and the business-day range\<close>

text \<open>
  A timestamp of the fetcher is a calendar date at midnight in the market's time zone
  (both command-line tools pass dates only). It is modelled as the number of days since
  1970-01-01, the epoch pandas counts from. 1970-01-01 was a Thursday; \<open>weekday\<close> follows
  Python's numbering, Monday = 0 ... Sunday = 6.
\<close>

type_synonym timestamp = int

definition weekday :: "timestamp \<Rightarrow> int" where
  "weekday d = (d + 3) mod 7"

definition is_business_day :: "timestamp \<Rightarrow> bool" where
  "is_business_day d = (weekday d < 5)"

text \<open>
  \<open>pd.date_range(start=start, end=end, freq='B')\<close>: pandas rolls the start forward to the
  first business day and then adds one business day at a time while the current day is
  not after the end.
\<close>

definition rollforward :: "timestamp \<Rightarrow> timestamp" where
  "rollforward d = (if weekday d = 5 then d + 2 else if weekday d = 6 then d + 1 else d)"

definition next_bday :: "timestamp \<Rightarrow> timestamp" where
  "next_bday d =
     (if weekday d = 4 then d + 3
      else if weekday d = 5 then d + 2
      else d + 1)"

function generate_range :: "timestamp \<Rightarrow> timestamp \<Rightarrow> timestamp list" where
  "generate_range cur e = (if cur \<le> e then cur # generate_range (next_bday cur) e else [])"
  by pat_completeness auto
termination
  by (relation "measure (\<lambda>(cur, e). nat (e + 1 - cur))") (auto simp: next_bday_def)

declare generate_range.simps [simp del]

definition date_range_B :: "timestamp \<Rightarrow> timestamp \<Rightarrow> timestamp list" where
  "date_range_B s e = generate_range (rollforward s) e"

section \<open>Date strings\<close>

text \<open>
  \<open>date.strftime('%Y-%m-%d')\<close>. The civil date of a day number is found by walking whole
  years from 1970 (in either direction) and then whole months from January; the fields
  are printed zero-padded, four digits for the year and two for month and day.
\<close>

definition is_leap :: "int \<Rightarrow> bool" where
  "is_leap y = (if y mod 100 = 0 then y mod 400 = 0 else y mod 4 = 0)"

definition days_in_year :: "int \<Rightarrow> int" where
  "days_in_year y = (if is_leap y then 366 else 365)"

function civil_year :: "int \<Rightarrow> int \<Rightarrow> int \<times> int" where
  "civil_year y n =
     (if n < 0 then civil_year (y - 1) (n + days_in_year (y - 1))
      else if days_in_year y \<le> n then civil_year (y + 1) (n - days_in_year y)
      else (y, n))"
  by pat_completeness auto
termination
  by (relation "measure (\<lambda>(y, n). if n < 0 then nat (- n) + 366 else nat n)")
     (auto simp: days_in_year_def split: if_splits)

declare civil_year.simps [simp del]

definition days_in_month :: "bool \<Rightarrow> nat \<Rightarrow> int" where
  "days_in_month leap m =
     (if m = 2 then (if leap then 29 else 28)
      else if m = 4 \<or> m = 6 \<or> m = 9 \<or> m = 11 then 30
      else 31)"

function civil_month :: "bool \<Rightarrow> nat \<Rightarrow> int \<Rightarrow> nat \<times> int" where
  "civil_month leap m n =
     (if m < 12 \<and> days_in_month leap m \<le> n
      then civil_month leap (Suc m) (n - days_in_month leap m)
      else (m, n))"
  by pat_completeness auto
termination
  by (relation "measure (\<lambda>(leap, m, n). 12 - m)") auto

declare civil_month.simps [simp del]

definition ymd :: "timestamp \<Rightarrow> int \<times> nat \<times> int" where
  "ymd d =
     (case civil_year 1970 d of (y, n) \<Rightarrow>
        (case civil_month (is_leap y) 1 n of (m, k) \<Rightarrow> (y, m, k + 1)))"

definition digit_char :: "nat \<Rightarrow> char" where
  "digit_char n = char_of (48 + n)"

definition pad2 :: "nat \<Rightarrow> string" where
  "pad2 n = [digit_char (n div 10 mod 10), digit_char (n mod 10)]"

definition pad4 :: "nat \<Rightarrow> string" where
  "pad4 n = [digit_char (n div 1000 mod 10), digit_char (n div 100 mod 10),
             digit_char (n div 10 mod 10), digit_char (n mod 10)]"

definition strftime :: "timestamp \<Rightarrow> string" where
  "strftime d =
     (case ymd d of (y, m, k) \<Rightarrow> pad4 (nat y) @ ''-'' @ pad2 m @ ''-'' @ pad2 (nat k))"

fun str_nat :: "nat \<Rightarrow> string" where
  "str_nat n = (if n < 10 then [digit_char n] else str_nat (n div 10) @ [digit_char (n mod 10)])"

declare str_nat.simps [simp del]


section \<open>Python values and the outside world\<close>

text \<open>
  Errors are values. \<open>Exception msg\<close> stands for any instance of Python's \<open>Exception\<close>
  (with its \<open>str()\<close>), which the \<open>except Exception\<close> clauses of the source catch;
  \<open>KeyboardInterrupt\<close> and \<open>SystemExit\<close> derive from \<open>BaseException\<close> only, so those
  clauses let them pass.
\<close>

datatype pyexn = Exception string | KeyboardInterrupt | SystemExit int

fun is_Exception :: "pyexn \<Rightarrow> bool" where
  "is_Exception (Exception msg) = True"
| "is_Exception KeyboardInterrupt = False"
| "is_Exception (SystemExit code) = False"

fun str_exn :: "pyexn \<Rightarrow> string" where
  "str_exn (Exception msg) = msg"
| "str_exn KeyboardInterrupt = []"
| "str_exn (SystemExit code) = []"

datatype level = INFO | WARNING | ERROR

type_synonym path = "string list"

definition str_path :: "path \<Rightarrow> string" where
  "str_path p = concat (map (\<lambda>c. ''/'' @ c) p)"

text \<open>
  Everything the program does to the outside world is an event of a trace, in the order
  it happens: log records, calls of the gateway client, sleeps (in milliseconds) and
  file-system operations. A row of a bar table is of an arbitrary type \<open>'b\<close>; a data
  frame is the list of its rows. The files written by \<open>to_csv\<close> are kept as a map from
  path to contents as well.
\<close>

datatype 'b event =
    Log level string
  | IBConnect string int int
  | IBDisconnect
  | ReqHistoricalData string timestamp int int
  | Sleep nat
  | Mkdir path
  | ToCsv path "'b list"
  | ReadCsv path

record 'b world =
  trace :: "'b event list"
  files :: "path \<rightharpoonup> 'b list"

definition emit :: "'b event \<Rightarrow> 'b world \<Rightarrow> 'b world" where
  "emit ev w = w\<lparr>trace := trace w @ [ev]\<rparr>"

definition log :: "level \<Rightarrow> string \<Rightarrow> 'b world \<Rightarrow> 'b world" where
  "log lvl msg w = emit (Log lvl msg) w"

definition write_file :: "path \<Rightarrow> 'b list \<Rightarrow> 'b world \<Rightarrow> 'b world" where
  "write_file p data w = w\<lparr>trace := trace w @ [ToCsv p data], files := (files w)(p \<mapsto> data)\<rparr>"

text \<open>
  What the outside world answers is a parameter of every operation: what \<open>IB.connect\<close>
  raises (if anything), the bars \<open>IB.reqHistoricalData\<close> returns or the error it raises
  for a ticker and an end time (day, hour, minute; the other arguments of the request are
  constants), how pandas reads a date string, what \<open>mkdir\<close>, \<open>to_csv\<close> and \<open>ZoneInfo\<close>
  raise, and the \<open>Ticker\<close> column \<open>read_csv\<close> finds in a manifest.
\<close>

record 'b env =
  ib_connect :: "string \<Rightarrow> int \<Rightarrow> int \<Rightarrow> pyexn option"
  reqHistoricalData :: "string \<Rightarrow> timestamp \<Rightarrow> int \<Rightarrow> int \<Rightarrow> pyexn + 'b list"
  to_datetime_parse :: "string \<Rightarrow> pyexn + timestamp"
  mkdir_raises :: "path \<Rightarrow> pyexn option"
  to_csv_raises :: "path \<Rightarrow> pyexn option"
  zoneinfo_raises :: "string \<Rightarrow> pyexn option"
  read_csv_Ticker :: "path \<Rightarrow> pyexn + string list"

text \<open>
  \<open>pd.to_datetime\<close>: a pandas timestamp holds dates from 1677-09-22 to 2262-04-11 only;
  outside of them the conversion raises.
\<close>

definition Timestamp_min :: timestamp where
  "Timestamp_min = - 106751"

definition Timestamp_max :: timestamp where
  "Timestamp_max = 106751"

definition to_datetime :: "'b env \<Rightarrow> string \<Rightarrow> pyexn + timestamp" where
  "to_datetime env s =
     (case to_datetime_parse env s of
        Inl e \<Rightarrow> Inl e
      | Inr d \<Rightarrow>
          if Timestamp_min \<le> d \<and> d \<le> Timestamp_max then Inr d
          else Inl (Exception ''OutOfBoundsDatetime''))"

section \<open>Settings\<close>

record market_hours =
  mh_start :: string
  mh_end :: string
  mh_timezone :: string
  mh_trading_days :: string

record data_settings =
  interval :: string
  required_columns :: "string list"
  default_retries :: int
  retry_delay :: int

record settings =
  PROJECT_ROOT :: path
  DATA_DIR :: path
  RAW_DATA_DIR :: path
  PROCESSED_DATA_DIR :: path
  MARKET_HOURS :: market_hours
  DATA_SETTINGS :: data_settings


section \<open>The single-ticker fetcher\<close>

record ibkr_fetcher =
  connected :: bool
  save_dir :: path
  market_start :: "int list"
  market_end :: "int list"
  market_timezone :: string

text \<open>
  \<open>tuple(map(int, s.split(':')))\<close>. \<open>int\<close> is modelled on plain decimal digit strings,
  which is what the settings hold; any other string is taken to raise \<open>ValueError\<close>
  (Python would also accept surrounding blanks, a sign and underscores).
\<close>

fun split_colon :: "string \<Rightarrow> string list" where
  "split_colon [] = [[]]"
| "split_colon (c # cs) =
     (if c = CHR '':'' then [] # split_colon cs
      else (case split_colon cs of [] \<Rightarrow> [[c]] | x # xs \<Rightarrow> (c # x) # xs))"

definition is_digit :: "char \<Rightarrow> bool" where
  "is_digit c = (48 \<le> (of_char c :: nat) \<and> (of_char c :: nat) \<le> 57)"

definition digits_val :: "string \<Rightarrow> nat" where
  "digits_val s = foldl (\<lambda>acc c. 10 * acc + (of_char c - 48)) 0 s"

definition py_int :: "string \<Rightarrow> pyexn + int" where
  "py_int s =
     (if s \<noteq> [] \<and> list_all is_digit s then Inr (int (digits_val s))
      else Inl (Exception ''ValueError''))"

fun py_ints :: "string list \<Rightarrow> pyexn + int list" where
  "py_ints [] = Inr []"
| "py_ints (s # ss) =
     (case py_int s of
        Inl e \<Rightarrow> Inl e
      | Inr n \<Rightarrow> (case py_ints ss of Inl e \<Rightarrow> Inl e | Inr ns \<Rightarrow> Inr (n # ns)))"

definition IBKRFetcher_init ::
  "'b env \<Rightarrow> settings \<Rightarrow> path option \<Rightarrow> 'b world \<Rightarrow> (pyexn + ibkr_fetcher) \<times> 'b world" where
  "IBKRFetcher_init env st save_dir_arg w =
     (let sd = (case save_dir_arg of Some p \<Rightarrow> p | None \<Rightarrow> RAW_DATA_DIR st);
          w1 = log INFO (''Data will be saved to: '' @ str_path sd) w
      in case mkdir_raises env sd of
           Some e \<Rightarrow> (Inl e, w1)
         | None \<Rightarrow>
             (let w2 = emit (Mkdir sd) w1; mh = MARKET_HOURS st
              in case py_ints (split_colon (mh_start mh)) of
                   Inl e \<Rightarrow> (Inl e, w2)
                 | Inr ms \<Rightarrow>
                     (case py_ints (split_colon (mh_end mh)) of
                        Inl e \<Rightarrow> (Inl e, w2)
                      | Inr me \<Rightarrow>
                          (case zoneinfo_raises env (mh_timezone mh) of
                             Some e \<Rightarrow> (Inl e, w2)
                           | None \<Rightarrow>
                               (Inr \<lparr>connected = False, save_dir = sd, market_start = ms,
                                     market_end = me, market_timezone = mh_timezone mh\<rparr>,
                                w2)))))"

definition connect ::
  "'b env \<Rightarrow> int \<Rightarrow> int \<Rightarrow> ibkr_fetcher \<Rightarrow> 'b world \<Rightarrow> (pyexn + bool) \<times> ibkr_fetcher \<times> 'b world" where
  "connect env port client_id f w =
     (let w1 = emit (IBConnect ''127.0.0.1'' port client_id) w
      in case ib_connect env ''127.0.0.1'' port client_id of
           None \<Rightarrow>
             (Inr True, f\<lparr>connected := True\<rparr>, log INFO ''Successfully connected to IBKR'' w1)
         | Some e \<Rightarrow>
             if is_Exception e
             then (Inr False, f, log ERROR (''Failed to connect to IBKR: '' @ str_exn e) w1)
             else (Inl e, f, w1))"

definition disconnect :: "ibkr_fetcher \<Rightarrow> 'b world \<Rightarrow> ibkr_fetcher \<times> 'b world" where
  "disconnect f w =
     (if connected f then (f\<lparr>connected := False\<rparr>, emit IBDisconnect w) else (f, w))"

text \<open>
  \<open>_save_data\<close>: the body of its \<open>try\<close>, then the \<open>except Exception\<close> around it. A
  \<open>to_csv\<close> that raises is taken to leave the file as it was.
\<close>

definition save_data_body ::
  "'b env \<Rightarrow> ibkr_fetcher \<Rightarrow> 'b list \<Rightarrow> string \<Rightarrow> string \<Rightarrow> 'b world \<Rightarrow> (pyexn + path) \<times> 'b world" where
  "save_data_body env f data ticker date w =
     (case to_datetime env date of
        Inl e \<Rightarrow> (Inl e, w)
      | Inr ts \<Rightarrow>
          (let date_str = strftime ts;
               filename = ''raw_'' @ ticker @ ''_'' @ date_str @ ''.csv'';
               ticker_dir = save_dir f @ [ticker]
           in case mkdir_raises env ticker_dir of
                Some e \<Rightarrow> (Inl e, w)
              | None \<Rightarrow>
                  (let w1 = emit (Mkdir ticker_dir) w;
                       filepath = ticker_dir @ [filename]
                   in case to_csv_raises env filepath of
                        Some e \<Rightarrow> (Inl e, w1)
                      | None \<Rightarrow>
                          (Inr filepath,
                           log INFO (''Data saved to: '' @ str_path filepath)
                             (write_file filepath data w1)))))"

definition save_data ::
  "'b env \<Rightarrow> ibkr_fetcher \<Rightarrow> 'b list \<Rightarrow> string \<Rightarrow> string \<Rightarrow> 'b world
     \<Rightarrow> (pyexn + path option) \<times> 'b world" where
  "save_data env f data ticker date w =
     (case save_data_body env f data ticker date w of
        (Inr filepath, w') \<Rightarrow> (Inr (Some filepath), w')
      | (Inl e, w') \<Rightarrow>
          if is_Exception e
          then (Inr None, log ERROR (''Error saving data: '' @ str_exn e) w')
          else (Inl e, w'))"

text \<open>
  The end time of a day's request: \<open>date.replace(hour=self.market_end[0],
  minute=self.market_end[1])\<close>, with the \<open>IndexError\<close> of a short tuple and the
  \<open>ValueError\<close> of an hour or minute out of range.
\<close>

definition end_time :: "ibkr_fetcher \<Rightarrow> pyexn + int \<times> int" where
  "end_time f =
     (case market_end f of
        h # m # rest \<Rightarrow>
          if 0 \<le> h \<and> h \<le> 23 \<and> 0 \<le> m \<and> m \<le> 59 then Inr (h, m)
          else Inl (Exception ''ValueError'')
      | _ \<Rightarrow> Inl (Exception ''IndexError''))"

type_synonym 'b results = "(string \<times> 'b list) list"

text \<open>
  A Python \<open>dict\<close> is an association list in insertion order; \<open>d[k] = v\<close> is
  \<open>AList.update k v d\<close>, which replaces the value of a key in place or appends a new key.

  One iteration of the loop over the days: the body of the inner \<open>try\<close>, then the
  \<open>except Exception\<close> around it.
\<close>

definition day_body ::
  "'b env \<Rightarrow> ibkr_fetcher \<Rightarrow> string \<Rightarrow> timestamp \<Rightarrow> 'b results \<Rightarrow> 'b world
     \<Rightarrow> (pyexn + 'b results) \<times> 'b world" where
  "day_body env f ticker date results w =
     (case end_time f of
        Inl e \<Rightarrow> (Inl e, w)
      | Inr (h, m) \<Rightarrow>
          (let w1 = emit (ReqHistoricalData ticker date h m) w
           in case reqHistoricalData env ticker date h m of
                Inl e \<Rightarrow> (Inl e, w1)
              | Inr bars \<Rightarrow>
                  if bars = []
                  then (Inr results,
                        log WARNING (''No data available for '' @ ticker @ '' on '' @ strftime date) w1)
                  else
                    (let df = bars; date_str = strftime date
                     in if length df > 0
                        then
                          (case save_data env f df ticker date_str w1 of
                             (Inl e, w2) \<Rightarrow> (Inl e, w2)
                           | (Inr None, w2) \<Rightarrow> (Inr results, emit (Sleep 500) w2)
                           | (Inr (Some saved), w2) \<Rightarrow>
                               (Inr (AList.update date_str df results),
                                emit (Sleep 500)
                                  (log INFO (''Successfully saved '' @ str_nat (length df)
                                     @ '' records for '' @ date_str) w2)))
                        else (Inr results, emit (Sleep 500) w1))))"

definition fetch_day ::
  "'b env \<Rightarrow> ibkr_fetcher \<Rightarrow> string \<Rightarrow> timestamp \<Rightarrow> 'b results \<Rightarrow> 'b world
     \<Rightarrow> (pyexn + 'b results) \<times> 'b world" where
  "fetch_day env f ticker date results w =
     (case day_body env f ticker date results w of
        (Inr results', w') \<Rightarrow> (Inr results', w')
      | (Inl e, w') \<Rightarrow>
          if is_Exception e
          then (Inr results,
                log ERROR (''Error fetching '' @ ticker @ '' for '' @ strftime date @ '': ''
                           @ str_exn e) w')
          else (Inl e, w'))"

fun fetch_days ::
  "'b env \<Rightarrow> ibkr_fetcher \<Rightarrow> string \<Rightarrow> timestamp list \<Rightarrow> 'b results \<Rightarrow> 'b world
     \<Rightarrow> (pyexn + 'b results) \<times> 'b world" where
  "fetch_days env f ticker [] results w = (Inr results, w)"
| "fetch_days env f ticker (date # rest) results w =
     (case fetch_day env f ticker date results w of
        (Inl e, w') \<Rightarrow> (Inl e, w')
      | (Inr results', w') \<Rightarrow> fetch_days env f ticker rest results' w')"

text \<open>
  The window of a call: \<open>start\<close> and \<open>end\<close> as timestamps (the end is the start when
  \<open>end_date\<close> is \<open>None\<close> or empty), and the business days between them.
\<close>

definition trading_days :: "'b env \<Rightarrow> string \<Rightarrow> string option \<Rightarrow> pyexn + timestamp list" where
  "trading_days env start_date end_date =
     (case to_datetime env start_date of
        Inl e \<Rightarrow> Inl e
      | Inr start \<Rightarrow>
          (case (case end_date of
                   None \<Rightarrow> Inr start
                 | Some s \<Rightarrow> if s \<noteq> [] then to_datetime env s else Inr start) of
             Inl e \<Rightarrow> Inl e
           | Inr stop \<Rightarrow> Inr (date_range_B start stop)))"

definition fetch_date_range ::
  "'b env \<Rightarrow> ibkr_fetcher \<Rightarrow> string \<Rightarrow> string \<Rightarrow> string option \<Rightarrow> 'b world
     \<Rightarrow> (pyexn + 'b results) \<times> 'b world" where
  "fetch_date_range env f ticker start_date end_date w =
     (if \<not> connected f then (Inr [], log ERROR ''Not connected to IBKR'' w)
      else
        (case (case trading_days env start_date end_date of
                 Inl e \<Rightarrow> (Inl e, w)
               | Inr date_range \<Rightarrow> fetch_days env f ticker date_range [] w) of
           (Inr results, w') \<Rightarrow> (Inr results, w')
         | (Inl e, w') \<Rightarrow>
             if is_Exception e
             then (Inr [],
                   log ERROR (''Error in fetch_date_range for '' @ ticker @ '': '' @ str_exn e) w')
             else (Inl e, w')))"


section \<open>The command line of the single-ticker fetcher\<close>

text \<open>
  \<open>f"{s[:4]}-{s[4:6]}-{s[6:]}"\<close>, \<open>str.startswith\<close> and \<open>list.index\<close>.
\<close>

definition dashed :: "string \<Rightarrow> string" where
  "dashed s = take 4 s @ ''-'' @ take 2 (drop 4 s) @ ''-'' @ drop 6 s"

definition startswith :: "string \<Rightarrow> string \<Rightarrow> bool" where
  "startswith s prefix = (take (length prefix) s = prefix)"

fun list_index :: "'a \<Rightarrow> 'a list \<Rightarrow> nat option" where
  "list_index x [] = None"
| "list_index x (y # ys) = (if y = x then Some 0 else map_option Suc (list_index x ys))"

definition get_ticker :: "string list \<Rightarrow> string" where
  "get_ticker argv =
     (if ''--ticker'' \<in> set argv
      then (case list_index ''--ticker'' argv of
              None \<Rightarrow> ''NNE''
            | Some ticker_idx \<Rightarrow>
                if ticker_idx + 1 < length argv then argv ! (ticker_idx + 1) else ''NNE'')
      else ''NNE'')"

definition report :: "ibkr_fetcher \<Rightarrow> string \<Rightarrow> 'b results \<Rightarrow> 'b world \<Rightarrow> 'b world" where
  "report f ticker results w =
     foldl (\<lambda>w' (date, data).
              log INFO (date @ '': '' @ str_nat (length data) @ '' records -> ''
                        @ ''raw_'' @ ticker @ ''_'' @ date @ ''.csv'') w')
       (log INFO (''Files saved to: '' @ str_path (save_dir f))
          (log INFO (''Total dates processed: '' @ str_nat (length results))
             (log INFO (CHR 0x0A # ''Fetched data for '' @ ticker @ '':'') w)))
       results"

definition main_body ::
  "'b env \<Rightarrow> settings \<Rightarrow> string list \<Rightarrow> 'b world \<Rightarrow> (pyexn + unit) \<times> 'b world" where
  "main_body env st argv w =
     (if length argv < 2
      then (Inl (SystemExit 1),
            log ERROR ''Usage: python ibkr_fetcher.py START_DATE [END_DATE] [--ticker SYMBOL]''
              (log ERROR ''Please provide at least a start date (YYYYMMDD)'' w))
      else
        (let start_date = argv ! 1
         in if length start_date \<noteq> 8
            then (Inl (Exception ''Start date must be in YYYYMMDD format''), w)
            else
              (let start = dashed start_date
               in case (if length argv > 2 \<and> \<not> startswith (argv ! 2) ''--''
                        then (let end_input = argv ! 2
                              in if length end_input \<noteq> 8
                                 then Inl (Exception ''End date must be in YYYYMMDD format'')
                                 else Inr (Some (dashed end_input)))
                        else Inr None) of
                    Inl e \<Rightarrow> (Inl e, w)
                  | Inr end_date \<Rightarrow>
                      (let ticker = get_ticker argv
                       in case IBKRFetcher_init env st None w of
                            (Inl e, w1) \<Rightarrow> (Inl e, w1)
                          | (Inr fetcher, w1) \<Rightarrow>
                              (case connect env 7496 1 fetcher w1 of
                                 (Inl e, f1, w2) \<Rightarrow> (Inl e, w2)
                               | (Inr ok, f1, w2) \<Rightarrow>
                                   if \<not> ok then (Inl (SystemExit 1), w2)
                                   else
                                     (case fetch_date_range env f1 ticker start end_date w2 of
                                        (Inl e, w3) \<Rightarrow> (Inl e, snd (disconnect f1 w3))
                                      | (Inr results, w3) \<Rightarrow>
                                          (Inr (),
                                           snd (disconnect f1
                                                  (report f1 ticker results w3)))))))))"

definition main ::
  "'b env \<Rightarrow> settings \<Rightarrow> string list \<Rightarrow> 'b world \<Rightarrow> (pyexn + unit) \<times> 'b world" where
  "main env st argv w =
     (case main_body env st argv w of
        (Inr u, w') \<Rightarrow> (Inr u, w')
      | (Inl e, w') \<Rightarrow>
          if is_Exception e
          then (Inl (SystemExit 1), log ERROR (''Error: '' @ str_exn e) w')
          else (Inl e, w'))"

section \<open>The batch fetcher\<close>

record batch_fetcher =
  tickers_file :: path
  fetcher :: ibkr_fetcher

type_synonym 'b batch_results = "(string \<times> 'b results) list"

definition BatchFetcher_init ::
  "'b env \<Rightarrow> settings \<Rightarrow> 'b world \<Rightarrow> (pyexn + batch_fetcher) \<times> 'b world" where
  "BatchFetcher_init env st w =
     (case IBKRFetcher_init env st None w of
        (Inl e, w') \<Rightarrow> (Inl e, w')
      | (Inr f, w') \<Rightarrow>
          (Inr \<lparr>tickers_file = PROJECT_ROOT st @ [''data'', ''beta_stock'', ''stock_tickers.csv''],
                fetcher = f\<rparr>,
           w'))"

definition load_tickers ::
  "'b env \<Rightarrow> batch_fetcher \<Rightarrow> 'b world \<Rightarrow> (pyexn + string list) \<times> 'b world" where
  "load_tickers env bf w =
     (let w1 = emit (ReadCsv (tickers_file bf)) w
      in case read_csv_Ticker env (tickers_file bf) of
           Inr tickers \<Rightarrow>
             (Inr tickers,
              log INFO (''Loaded '' @ str_nat (length tickers) @ '' tickers from ''
                        @ str_path (tickers_file bf)) w1)
         | Inl e \<Rightarrow>
             if is_Exception e
             then (Inr [], log ERROR (''Error loading tickers: '' @ str_exn e) w1)
             else (Inl e, w1))"

text \<open>
  One iteration of the loop over the tickers: the body of the inner \<open>try\<close>, then the
  \<open>except Exception\<close> around it, which logs and goes on to the next ticker.
\<close>

definition ticker_body ::
  "'b env \<Rightarrow> ibkr_fetcher \<Rightarrow> string \<Rightarrow> string \<Rightarrow> nat \<Rightarrow> nat \<Rightarrow> string \<Rightarrow> 'b batch_results
     \<Rightarrow> 'b world \<Rightarrow> (pyexn + 'b batch_results) \<times> 'b world" where
  "ticker_body env f start stop total_tickers idx ticker results w =
     (let w1 = log INFO (''Processing '' @ ticker @ '' ('' @ str_nat idx @ ''/''
                         @ str_nat total_tickers @ '')'') w
      in case fetch_date_range env f ticker start (Some stop) w1 of
           (Inl e, w2) \<Rightarrow> (Inl e, w2)
         | (Inr data, w2) \<Rightarrow>
             (let results' = AList.update ticker data results;
                  w3 = (if data \<noteq> []
                        then log INFO (''Completed '' @ ticker @ '': '' @ str_nat (length data)
                               @ '' days, ''
                               @ str_nat (sum_list (map (\<lambda>(d, df). length df) data))
                               @ '' records'') w2
                        else log WARNING (''No data retrieved for '' @ ticker) w2)
              in (Inr results', emit (Sleep 1000) w3)))"

definition fetch_ticker ::
  "'b env \<Rightarrow> ibkr_fetcher \<Rightarrow> string \<Rightarrow> string \<Rightarrow> nat \<Rightarrow> nat \<Rightarrow> string \<Rightarrow> 'b batch_results
     \<Rightarrow> 'b world \<Rightarrow> (pyexn + 'b batch_results) \<times> 'b world" where
  "fetch_ticker env f start stop total_tickers idx ticker results w =
     (case ticker_body env f start stop total_tickers idx ticker results w of
        (Inr results', w') \<Rightarrow> (Inr results', w')
      | (Inl e, w') \<Rightarrow>
          if is_Exception e
          then (Inr results, log ERROR (''Error processing '' @ ticker @ '': '' @ str_exn e) w')
          else (Inl e, w'))"

fun fetch_tickers ::
  "'b env \<Rightarrow> ibkr_fetcher \<Rightarrow> string \<Rightarrow> string \<Rightarrow> nat \<Rightarrow> nat \<Rightarrow> string list \<Rightarrow> 'b batch_results
     \<Rightarrow> 'b world \<Rightarrow> (pyexn + 'b batch_results) \<times> 'b world" where
  "fetch_tickers env f start stop total_tickers idx [] results w = (Inr results, w)"
| "fetch_tickers env f start stop total_tickers idx (ticker # rest) results w =
     (case fetch_ticker env f start stop total_tickers idx ticker results w of
        (Inl e, w') \<Rightarrow> (Inl e, w')
      | (Inr results', w') \<Rightarrow>
          fetch_tickers env f start stop total_tickers (Suc idx) rest results' w')"

text \<open>
  \<open>fetch_all\<close>: connect, then the \<open>try\<close> (load the manifest, loop over the tickers) with
  its \<open>finally\<close>, which disconnects whatever the \<open>try\<close> did.
\<close>

definition fetch_all ::
  "'b env \<Rightarrow> batch_fetcher \<Rightarrow> string \<Rightarrow> string \<Rightarrow> 'b world
     \<Rightarrow> (pyexn + 'b batch_results) \<times> batch_fetcher \<times> 'b world" where
  "fetch_all env bf start_date end_date w =
     (let start = dashed start_date; stop = dashed end_date
      in case connect env 7496 1 (fetcher bf) w of
           (Inl e, f1, w1) \<Rightarrow> (Inl e, bf\<lparr>fetcher := f1\<rparr>, w1)
         | (Inr ok, f1, w1) \<Rightarrow>
             if \<not> ok
             then (Inr [], bf\<lparr>fetcher := f1\<rparr>, log ERROR ''Failed to connect to IBKR'' w1)
             else
               (case (case load_tickers env (bf\<lparr>fetcher := f1\<rparr>) w1 of
                        (Inl e, w2) \<Rightarrow> (Inl e, w2)
                      | (Inr tickers, w2) \<Rightarrow>
                          fetch_tickers env f1 start stop (length tickers) 1 tickers [] w2) of
                  (r, w3) \<Rightarrow>
                    (case disconnect f1 w3 of (f2, w4) \<Rightarrow> (r, bf\<lparr>fetcher := f2\<rparr>, w4))))"

definition batch_report :: "'b batch_results \<Rightarrow> 'b world \<Rightarrow> 'b world" where
  "batch_report results w =
     (let successful = length (filter (\<lambda>(t, data). data \<noteq> []) results);
          total = length results;
          records = (\<lambda>data. sum_list (map (\<lambda>(d, df). length df) data));
          w1 = log INFO (CHR 0x0A # ''Batch processing complete:'') w;
          w2 = log INFO (''Successfully processed: '' @ str_nat successful @ ''/''
                         @ str_nat total @ '' tickers'') w1;
          w3 = log INFO (''Failed: '' @ str_nat (total - successful) @ '' tickers'') w2;
          w4 = foldl (\<lambda>w' (ticker, data).
                        if data \<noteq> []
                        then log INFO (ticker @ '': '' @ str_nat (length data) @ '' days, ''
                                       @ str_nat (records data) @ '' records'') w'
                        else w') w3 results
      in log INFO (''Total records fetched: ''
                   @ str_nat (sum_list (map (\<lambda>(t, data). records data) results))) w4)"

definition batch_main_body ::
  "'b env \<Rightarrow> settings \<Rightarrow> string list \<Rightarrow> 'b world \<Rightarrow> (pyexn + unit) \<times> 'b world" where
  "batch_main_body env st argv w =
     (if length argv < 2
      then (Inl (SystemExit 1),
            log ERROR ''Usage: python batch_fetcher.py START_DATE [END_DATE]''
              (log ERROR ''Please provide at least a start date (YYYYMMDD)'' w))
      else
        (let start_date = argv ! 1
         in if length start_date \<noteq> 8
            then (Inl (Exception ''Start date must be in YYYYMMDD format''), w)
            else
              (case (if length argv > 2
                     then (if length (argv ! 2) \<noteq> 8
                           then Inl (Exception ''End date must be in YYYYMMDD format'')
                           else Inr (argv ! 2))
                     else Inr start_date) of
                 Inl e \<Rightarrow> (Inl e, w)
               | Inr end_date \<Rightarrow>
                   (let w1 = log INFO (''Starting batch fetch from '' @ start_date @ '' to ''
                                       @ end_date) w
                    in case BatchFetcher_init env st w1 of
                         (Inl e, w2) \<Rightarrow> (Inl e, w2)
                       | (Inr bf, w2) \<Rightarrow>
                           (case fetch_all env bf start_date end_date w2 of
                              (Inl e, bf', w3) \<Rightarrow> (Inl e, w3)
                            | (Inr results, bf', w3) \<Rightarrow> (Inr (), batch_report results w3))))))"

definition batch_main ::
  "'b env \<Rightarrow> settings \<Rightarrow> string list \<Rightarrow> 'b world \<Rightarrow> (pyexn + unit) \<times> 'b world" where
  "batch_main env st argv w =
     (case batch_main_body env st argv w of
        (Inr u, w') \<Rightarrow> (Inr u, w')
      | (Inl e, w') \<Rightarrow>
          if is_Exception e
          then (Inl (SystemExit 1), log ERROR (''Batch processing error: '' @ str_exn e) w')
          else (Inl e, w'))"


section \<open>Auxiliary definitions for the proofs\<close>

text \<open>
  The number of days before the first of January of a year and before the first of a
  month, in closed form; the walks of \<open>civil_year\<close> and \<open>civil_month\<close> preserve the sum
  of these and the remaining days.
\<close>

definition days_before_year :: "int \<Rightarrow> int" where
  "days_before_year y = 365 * y + (y - 1) div 4 - (y - 1) div 100 + (y - 1) div 400"

definition days_before_month :: "bool \<Rightarrow> nat \<Rightarrow> int" where
  "days_before_month leap m = (\<Sum>i\<leftarrow>[1..<m]. days_in_month leap i)"

text \<open>
  A small outside world for the examples: the gateway accepts the connection; ticker
  \<open>BBB\<close> is unknown to it, and for the others the request of 2024-01-04 times out, that
  of 2024-01-05 finds no bars and every other day has two bars; the file system never
  fails; the manifest lists three tickers.
\<close>

definition demo_dates :: "(string \<times> timestamp) list" where
  "demo_dates =
     [(''2024-01-03'', 19725), (''2024-01-04'', 19726), (''2024-01-05'', 19727),
      (''2024-01-06'', 19728), (''2024-01-08'', 19730), (''2024-01-09'', 19731),
      (''2024-01-14'', 19736)]"

definition demo_env :: "nat env" where
  "demo_env =
     \<lparr>ib_connect = (\<lambda>host port client_id. None),
      reqHistoricalData = (\<lambda>ticker d h m.
         if ticker = ''BBB'' then Inl (Exception ''No security definition has been found'')
         else if d = 19726 then Inl (Exception ''Timeout'')
         else if d = 19727 then Inr []
         else Inr [nat d, nat d + 1]),
      to_datetime_parse = (\<lambda>s.
         case map_of demo_dates s of
           None \<Rightarrow> Inl (Exception ''Unknown datetime string format'')
         | Some d \<Rightarrow> Inr d),
      mkdir_raises = (\<lambda>p. None),
      to_csv_raises = (\<lambda>p. None),
      zoneinfo_raises = (\<lambda>z. None),
      read_csv_Ticker = (\<lambda>p. Inr [''AAA'', ''BBB'', ''CCC''])\<rparr>"

definition demo_fetcher :: ibkr_fetcher where
  "demo_fetcher =
     \<lparr>connected = True, save_dir = [''data'', ''raw''], market_start = [9, 30],
      market_end = [16, 0], market_timezone = ''America/New_York''\<rparr>"

definition demo_world :: "nat world" where
  "demo_world = \<lparr>trace = [], files = Map.empty\<rparr>"

text \<open>
  An outside world in which every error raised is an instance of \<open>Exception\<close> (nobody
  interrupts the program from the keyboard).
\<close>

definition raises_only_Exceptions :: "'b env \<Rightarrow> bool" where
  "raises_only_Exceptions env =
     ((\<forall>host port client_id e. ib_connect env host port client_id = Some e \<longrightarrow> is_Exception e)
      \<and> (\<forall>ticker d h m e. reqHistoricalData env ticker d h m = Inl e \<longrightarrow> is_Exception e)
      \<and> (\<forall>s e. to_datetime_parse env s = Inl e \<longrightarrow> is_Exception e)
      \<and> (\<forall>p e. mkdir_raises env p = Some e \<longrightarrow> is_Exception e)
      \<and> (\<forall>p e. to_csv_raises env p = Some e \<longrightarrow> is_Exception e)
      \<and> (\<forall>z e. zoneinfo_raises env z = Some e \<longrightarrow> is_Exception e)
      \<and> (\<forall>p e. read_csv_Ticker env p = Inl e \<longrightarrow> is_Exception e))"

text \<open>
  The events \<open>fetch_date_range\<close> can add to the trace: log records, requests, the
  half-second sleep after a day with bars, and the directory and file of a save.
\<close>

fun fetch_event :: "'b event \<Rightarrow> bool" where
  "fetch_event (Log lvl msg) = True"
| "fetch_event (ReqHistoricalData ticker d h m) = True"
| "fetch_event (Sleep ms) = (ms = 500)"
| "fetch_event (Mkdir p) = True"
| "fetch_event (ToCsv p data) = True"
| "fetch_event (IBConnect host port client_id) = False"
| "fetch_event IBDisconnect = False"
| "fetch_event (ReadCsv p) = False"

definition demo_batch :: batch_fetcher where
  "demo_batch =
     \<lparr>tickers_file = [''data'', ''beta_stock'', ''stock_tickers.csv''],
      fetcher = demo_fetcher\<lparr>connected := False\<rparr>\<rparr>"

section \<open>Properties of the calendar\<close>

lemma weekday_range: "0 \<le> weekday d \<and> weekday d < 7"
  by (simp add: weekday_def)

lemma filter_upto_skip:
  "\<not> P a \<Longrightarrow> filter P [a..e] = filter P [a + 1..e]"
  by (cases "a \<le> e") (simp_all add: upto_rec1)

lemma generate_range_filter:
  "is_business_day cur \<Longrightarrow> generate_range cur e = filter is_business_day [cur..e]"
proof (induction cur e rule: generate_range.induct)
  case (1 cur e)
  show ?case
  proof (cases "cur \<le> e")
    case False
    then show ?thesis by (simp add: generate_range.simps [of cur e])
  next
    case True
    have wk: "weekday cur < 5" using "1.prems" by (simp add: is_business_day_def)
    have nb: "is_business_day (next_bday cur)"
      using wk weekday_range [of cur]
      unfolding is_business_day_def next_bday_def weekday_def by presburger
    have ih: "generate_range (next_bday cur) e = filter is_business_day [next_bday cur..e]"
      using "1.IH" [OF True nb] .
    have tail: "filter is_business_day [cur + 1..e] = filter is_business_day [next_bday cur..e]"
    proof (cases "weekday cur = 4")
      case False
      then show ?thesis using wk by (simp add: next_bday_def)
    next
      case fri: True
      have sat: "\<not> is_business_day (cur + 1)"
        using fri unfolding is_business_day_def weekday_def by presburger
      have sun: "\<not> is_business_day (cur + 1 + 1)"
        using fri unfolding is_business_day_def weekday_def by presburger
      have "filter is_business_day [cur + 1..e] = filter is_business_day [cur + 1 + 1 + 1..e]"
        using filter_upto_skip [of is_business_day "cur + 1" e]
          filter_upto_skip [of is_business_day "cur + 1 + 1" e] sat sun by simp
      then show ?thesis using fri by (simp add: next_bday_def add.assoc)
    qed
    have "generate_range cur e = cur # generate_range (next_bday cur) e"
      using True by (simp add: generate_range.simps [of cur e])
    also have "\<dots> = cur # filter is_business_day [cur + 1..e]"
      using ih tail by simp
    also have "\<dots> = filter is_business_day [cur..e]"
      using True "1.prems" by (simp add: upto_rec1)
    finally show ?thesis .
  qed
qed

lemma date_range_B_filter: "date_range_B s e = filter is_business_day [s..e]"
proof -
  consider (sat) "weekday s = 5" | (sun) "weekday s = 6" | (bd) "weekday s < 5"
    using weekday_range [of s] by force
  then show ?thesis
  proof cases
    case sat
    have a: "\<not> is_business_day s" using sat by (simp add: is_business_day_def)
    have b: "\<not> is_business_day (s + 1)"
      using sat unfolding is_business_day_def weekday_def by presburger
    have c: "is_business_day (s + 2)"
      using sat unfolding is_business_day_def weekday_def by presburger
    have "filter is_business_day [s..e] = filter is_business_day [s + 1 + 1..e]"
      using filter_upto_skip [of is_business_day s e]
        filter_upto_skip [of is_business_day "s + 1" e] a b by simp
    also have "s + 1 + 1 = s + 2" by simp
    finally show ?thesis
      using sat generate_range_filter [OF c, of e] by (simp add: date_range_B_def rollforward_def)
  next
    case sun
    have a: "\<not> is_business_day s" using sun by (simp add: is_business_day_def)
    have c: "is_business_day (s + 1)"
      using sun unfolding is_business_day_def weekday_def by presburger
    show ?thesis
      using sun generate_range_filter [OF c, of e] filter_upto_skip [of is_business_day s e] a
      by (simp add: date_range_B_def rollforward_def)
  next
    case bd
    then have c: "is_business_day s" by (simp add: is_business_day_def)
    show ?thesis
      using bd generate_range_filter [OF c, of e] by (simp add: date_range_B_def rollforward_def)
  qed
qed

lemma date_range_B_sorted: "sorted_wrt (<) (date_range_B s e)"
  by (simp add: date_range_B_filter sorted_wrt_filter)

lemma date_range_B_set:
  "set (date_range_B s e) = {d. s \<le> d \<and> d \<le> e \<and> weekday d \<noteq> 5 \<and> weekday d \<noteq> 6}"
proof -
  have "\<And>d. (weekday d < 5) = (weekday d \<noteq> 5 \<and> weekday d \<noteq> 6)"
    unfolding weekday_def by presburger
  then show ?thesis by (auto simp: date_range_B_filter is_business_day_def)
qed

lemma demo_to_datetime:
  "to_datetime demo_env ''2024-01-03'' = Inr 19725"
  "to_datetime demo_env ''2024-01-05'' = Inr 19727"
  "to_datetime demo_env ''2024-01-06'' = Inr 19728"
  "to_datetime demo_env ''2024-01-09'' = Inr 19731"
  "to_datetime demo_env ''2024-01-14'' = Inr 19736"
  by (simp_all add: to_datetime_def demo_env_def demo_dates_def Timestamp_min_def
      Timestamp_max_def)

text \<open>
  C1. For every window given to \<open>fetch_date_range\<close> whose dates pandas can read, the
  sequence of days the loop runs over is exactly the weekdays (Monday to Friday)
  between start and end inclusive, in ascending order and with no Saturday or Sunday,
  wherever start and end themselves fall. The end is the start when no end date is given.
\<close>

theorem trading_days_weekdays:
  assumes "to_datetime env start_date = Inr a"
    and "case end_date of
           None \<Rightarrow> b = a
         | Some s \<Rightarrow> if s \<noteq> [] then to_datetime env s = Inr b else b = a"
  shows "\<exists>days. trading_days env start_date end_date = Inr days
           \<and> days = filter is_business_day [a..b]
           \<and> sorted_wrt (<) days
           \<and> set days = {d. a \<le> d \<and> d \<le> b \<and> weekday d \<noteq> 5 \<and> weekday d \<noteq> 6}"
proof -
  have "trading_days env start_date end_date = Inr (date_range_B a b)"
    using assms by (auto simp: trading_days_def split: option.splits if_splits)
  then show ?thesis
    using date_range_B_filter [of a b] date_range_B_sorted [of a b] date_range_B_set [of a b]
    by simp
qed

theorem trading_days_weekdays_witness:
  "to_datetime demo_env ''2024-01-06'' = Inr 19728
   \<and> to_datetime demo_env ''2024-01-14'' = Inr 19736
   \<and> weekday 19728 = 5 \<and> weekday 19736 = 6
   \<and> (\<exists>days. trading_days demo_env ''2024-01-06'' (Some ''2024-01-14'') = Inr days
         \<and> days = filter is_business_day [19728..19736]
         \<and> sorted_wrt (<) days
         \<and> set days = {d. 19728 \<le> d \<and> d \<le> 19736 \<and> weekday d \<noteq> 5 \<and> weekday d \<noteq> 6})"
proof -
  have "case Some ''2024-01-14'' of
          None \<Rightarrow> (19736 :: int) = 19728
        | Some s \<Rightarrow> if s \<noteq> [] then to_datetime demo_env s = Inr 19736 else (19736 :: int) = 19728"
    by (simp add: demo_to_datetime)
  from trading_days_weekdays [OF demo_to_datetime(3) this] show ?thesis
    by (simp add: demo_to_datetime weekday_def)
qed

section \<open>Date strings are distinct for distinct days\<close>

lemma div_step:
  fixes y k :: int
  assumes k: "0 < k"
  shows "y div k = (y - 1) div k + (if y mod k = 0 then 1 else 0)"
proof (cases "y mod k = 0")
  case True
  have "y - 1 = k * (y div k - 1) + (k - 1)"
    using True mult_div_mod_eq [of k y] by (simp add: algebra_simps)
  then have "(y - 1) div k = y div k - 1"
    using k by (intro int_div_pos_eq [where r = "k - 1"]) simp_all
  then show ?thesis using True by simp
next
  case False
  have "0 \<le> y mod k" using k by (rule pos_mod_sign)
  with False have r1: "0 \<le> y mod k - 1" by linarith
  have r2: "y mod k - 1 < k" using pos_mod_bound [OF k, of y] by linarith
  have "y - 1 = k * (y div k) + (y mod k - 1)"
    using mult_div_mod_eq [of k y] by simp
  then have "(y - 1) div k = y div k"
    using r1 r2 by (intro int_div_pos_eq [where r = "y mod k - 1"]) simp_all
  then show ?thesis using False by simp
qed

lemma mod_mult_0:
  fixes y a b :: int
  shows "y mod (a * b) = 0 \<Longrightarrow> y mod a = 0"
  by (metis dvd_eq_mod_eq_0 dvd_mult_left)

lemma days_before_year_Suc: "days_before_year (y + 1) = days_before_year y + days_in_year y"
proof -
  define a4 :: int where "a4 = (if y mod 4 = 0 then 1 else 0)"
  define a100 :: int where "a100 = (if y mod 100 = 0 then 1 else 0)"
  define a400 :: int where "a400 = (if y mod 400 = 0 then 1 else 0)"
  have s4: "y div 4 = (y - 1) div 4 + a4" unfolding a4_def by (rule div_step) simp
  have s100: "y div 100 = (y - 1) div 100 + a100" unfolding a100_def by (rule div_step) simp
  have s400: "y div 400 = (y - 1) div 400 + a400" unfolding a400_def by (rule div_step) simp
  have i1: "y mod 100 = 0 \<Longrightarrow> y mod 4 = 0" using mod_mult_0 [of y 4 25] by simp
  have i2: "y mod 400 = 0 \<Longrightarrow> y mod 100 = 0" using mod_mult_0 [of y 100 4] by simp
  have diy: "days_in_year y = 365 + a4 - a100 + a400"
  proof (cases "y mod 100 = 0")
    case True
    then show ?thesis using i1
      by (cases "y mod 400 = 0") (simp_all add: days_in_year_def is_leap_def a4_def a100_def a400_def)
  next
    case False
    then have "y mod 400 \<noteq> 0" using i2 by auto
    with False show ?thesis
      by (cases "y mod 4 = 0") (simp_all add: days_in_year_def is_leap_def a4_def a100_def a400_def)
  qed
  have "days_before_year (y + 1) = 365 * (y + 1) + y div 4 - y div 100 + y div 400"
    by (simp add: days_before_year_def)
  also have "\<dots> = days_before_year y + (365 + a4 - a100 + a400)"
    unfolding s4 s100 s400 days_before_year_def by (simp add: algebra_simps)
  finally show ?thesis using diy by simp
qed


lemma civil_year_inv:
  "civil_year y n = (y', r) \<Longrightarrow>
     0 \<le> r \<and> r < days_in_year y' \<and> days_before_year y' + r = days_before_year y + n"
proof (induction y n rule: civil_year.induct)
  case (1 y n)
  show ?case
  proof (cases "n < 0")
    case True
    then have "civil_year (y - 1) (n + days_in_year (y - 1)) = (y', r)"
      using "1.prems" by (simp add: civil_year.simps [of y n])
    from "1.IH"(1) [OF True this] show ?thesis
      using days_before_year_Suc [of "y - 1"] by simp
  next
    case False
    show ?thesis
    proof (cases "days_in_year y \<le> n")
      case True
      then have "civil_year (y + 1) (n - days_in_year y) = (y', r)"
        using "1.prems" False by (simp add: civil_year.simps [of y n])
      from "1.IH"(2) [OF False True this] show ?thesis
        using days_before_year_Suc [of y] by simp
    next
      case ge: False
      then have "y' = y" "r = n"
        using "1.prems" False by (simp_all add: civil_year.simps [of y n])
      then show ?thesis using False ge by simp
    qed
  qed
qed

lemma days_before_month_Suc:
  "1 \<le> m \<Longrightarrow> days_before_month leap (Suc m) = days_before_month leap m + days_in_month leap m"
  by (simp add: days_before_month_def)

lemma days_in_month_pos: "28 \<le> days_in_month leap m"
  by (simp add: days_in_month_def)

lemma days_before_month_nonneg: "0 \<le> days_before_month leap m"
  unfolding days_before_month_def
proof (rule sum_list_nonneg)
  fix x assume "x \<in> set (map (days_in_month leap) [1..<m])"
  then obtain i where "x = days_in_month leap i" by auto
  then show "0 \<le> x" using days_in_month_pos [of leap i] by simp
qed

lemma days_before_month_12: "days_before_month leap 12 = (if leap then 335 else 334)"
proof -
  have "[1..<12] = [1, 2, 3, 4, 5, 6, 7, 8, 9, 10, 11 :: nat]" by code_simp
  then show ?thesis by (simp add: days_before_month_def days_in_month_def)
qed

lemma civil_month_inv:
  "civil_month leap m n = (m', r) \<Longrightarrow> 1 \<le> m \<Longrightarrow> m \<le> 12 \<Longrightarrow> 0 \<le> n \<Longrightarrow>
     m' \<le> 12 \<and> 0 \<le> r \<and> (m' < 12 \<longrightarrow> r < days_in_month leap m') \<and> m \<le> m' \<and>
     days_before_month leap m' + r = days_before_month leap m + n"
proof (induction leap m n rule: civil_month.induct)
  case (1 leap m n)
  show ?case
  proof (cases "m < 12 \<and> days_in_month leap m \<le> n")
    case True
    then have "civil_month leap (Suc m) (n - days_in_month leap m) = (m', r)"
      using "1.prems"(1) by (simp add: civil_month.simps [of leap m n])
    from "1.IH" [OF True this] True "1.prems" show ?thesis
      by (simp add: days_before_month_Suc)
  next
    case False
    then have "civil_month leap m n = (m, n)"
      by (subst civil_month.simps) (simp only: if_False)
    then have "m' = m" "r = n"
      using "1.prems"(1) by simp_all
    then show ?thesis using False "1.prems" by auto
  qed
qed

lemma ymd_inv:
  assumes "ymd d = (y, m, k)"
  shows "days_before_year y + days_before_month (is_leap y) m + k = days_before_year 1970 + d + 1"
    and "1 \<le> m" and "m \<le> 12" and "1 \<le> k" and "k \<le> 32"
    and "days_before_month (is_leap y) m + k \<le> days_in_year y"
proof -
  obtain n where cy: "civil_year 1970 d = (y, n)"
    and cm: "civil_month (is_leap y) 1 n = (m, k - 1)"
    using assms by (auto simp: ymd_def split: prod.splits)
  note a = civil_year_inv [OF cy]
  have b: "m \<le> 12 \<and> 0 \<le> k - 1 \<and> (m < 12 \<longrightarrow> k - 1 < days_in_month (is_leap y) m) \<and> 1 \<le> m \<and>
     days_before_month (is_leap y) m + (k - 1) = days_before_month (is_leap y) 1 + n"
    using civil_month_inv [OF cm] a by simp
  have z: "days_before_month (is_leap y) 1 = 0" by (simp add: days_before_month_def)
  show "days_before_year y + days_before_month (is_leap y) m + k = days_before_year 1970 + d + 1"
    using a b z by simp
  show "1 \<le> m" "m \<le> 12" "1 \<le> k" using b by simp_all
  show le: "days_before_month (is_leap y) m + k \<le> days_in_year y"
    using a b z by simp
  show "k \<le> 32"
  proof (cases "m < 12")
    case True
    then have "k - 1 < days_in_month (is_leap y) m" using b by simp
    then show ?thesis by (simp add: days_in_month_def split: if_splits)
  next
    case False
    then have "m = 12" using b by simp
    then show ?thesis using le
      by (simp add: days_before_month_12 days_in_year_def split: if_splits)
  qed
qed

lemma ymd_inj: "ymd a = ymd b \<Longrightarrow> a = b"
proof -
  assume eq: "ymd a = ymd b"
  obtain y m k where b: "ymd b = (y, m, k)" by (cases "ymd b") auto
  with eq have a: "ymd a = (y, m, k)" by simp
  from ymd_inv(1) [OF a] ymd_inv(1) [OF b] show "a = b" by simp
qed


lemma digit_char_inj: "a < 10 \<Longrightarrow> b < 10 \<Longrightarrow> digit_char a = digit_char b \<Longrightarrow> a = b"
proof -
  assume a: "a < 10" and b: "b < 10" and eq: "digit_char a = digit_char b"
  have "(of_char (digit_char a) :: nat) = of_char (digit_char b)" using eq by simp
  then show "a = b" using a b by (simp add: digit_char_def)
qed

lemma pad2_inj: "a < 100 \<Longrightarrow> b < 100 \<Longrightarrow> pad2 a = pad2 b \<Longrightarrow> a = b"
proof -
  assume a: "a < 100" and b: "b < 100" and eq: "pad2 a = pad2 b"
  have hi: "a div 10 mod 10 = b div 10 mod 10"
    using eq by (intro digit_char_inj) (simp_all add: pad2_def)
  have lo: "a mod 10 = b mod 10"
    using eq by (intro digit_char_inj) (simp_all add: pad2_def)
  have "a mod (10 * 10) = b mod (10 * 10)"
    unfolding mod_mult2_eq using hi lo by simp
  then show "a = b" using a b by simp
qed

lemma pad4_inj: "a < 10000 \<Longrightarrow> b < 10000 \<Longrightarrow> pad4 a = pad4 b \<Longrightarrow> a = b"
proof -
  assume a: "a < 10000" and b: "b < 10000" and eq: "pad4 a = pad4 b"
  have d3: "a div 1000 mod 10 = b div 1000 mod 10"
    using eq by (intro digit_char_inj) (simp_all add: pad4_def)
  have d2: "a div 100 mod 10 = b div 100 mod 10"
    using eq by (intro digit_char_inj) (simp_all add: pad4_def)
  have d1: "a div 10 mod 10 = b div 10 mod 10"
    using eq by (intro digit_char_inj) (simp_all add: pad4_def)
  have d0: "a mod 10 = b mod 10"
    using eq by (intro digit_char_inj) (simp_all add: pad4_def)
  have m100: "a mod (10 * 10) = b mod (10 * 10)"
    unfolding mod_mult2_eq using d1 d0 by simp
  have m1000: "a mod (100 * 10) = b mod (100 * 10)"
    unfolding mod_mult2_eq [of _ 100 10] using d2 m100 by simp
  have "a mod (1000 * 10) = b mod (1000 * 10)"
    unfolding mod_mult2_eq [of _ 1000 10] using d3 m1000 by simp
  then show "a = b" using a b by simp
qed

lemma length_pad2: "length (pad2 n) = 2"
  by (simp add: pad2_def)

lemma length_pad4: "length (pad4 n) = 4"
  by (simp add: pad4_def)

lemma div_bounds:
  fixes x k :: int
  assumes k: "0 < k"
  shows "k * (x div k) \<le> x" and "x < k * (x div k) + k"
proof -
  have a: "0 \<le> x mod k" using k by (rule pos_mod_sign)
  have b: "x mod k < k" using k by (rule pos_mod_bound)
  have c: "k * (x div k) + x mod k = x" by (rule mult_div_mod_eq)
  show "k * (x div k) \<le> x" using a c by linarith
  show "x < k * (x div k) + k" using b c by linarith
qed

lemma ymd_year_bounds:
  assumes "ymd d = (y, m, k)" and "Timestamp_min \<le> d" and "d \<le> Timestamp_max"
  shows "1000 \<le> y \<and> y < 10000"
proof -
  have e: "days_before_year 1970 = 719527" by (simp add: days_before_year_def)
  note i = ymd_inv [OF assms(1)]
  have n: "0 \<le> days_before_month (is_leap y) m" by (rule days_before_month_nonneg)
  have dy: "days_in_year y \<le> 366" by (simp add: days_in_year_def)
  define q4 where "q4 = (y - 1) div 4"
  define q100 where "q100 = (y - 1) div 100"
  define q400 where "q400 = (y - 1) div 400"
  have b4: "4 * q4 \<le> y - 1" "y - 1 < 4 * q4 + 4"
    unfolding q4_def using div_bounds [of 4 "y - 1"] by simp_all
  have b100: "100 * q100 \<le> y - 1" "y - 1 < 100 * q100 + 100"
    unfolding q100_def using div_bounds [of 100 "y - 1"] by simp_all
  have b400: "400 * q400 \<le> y - 1" "y - 1 < 400 * q400 + 400"
    unfolding q400_def using div_bounds [of 400 "y - 1"] by simp_all
  have dby: "days_before_year y = 365 * y + q4 - q100 + q400"
    by (simp add: days_before_year_def q4_def q100_def q400_def)
  show ?thesis
    using i(1) i(4) i(6) n dy e dby b4 b100 b400 assms(2,3)
    unfolding Timestamp_min_def Timestamp_max_def by linarith
qed

lemma strftime_inj:
  assumes "Timestamp_min \<le> a" "a \<le> Timestamp_max" "Timestamp_min \<le> b" "b \<le> Timestamp_max"
    and eq: "strftime a = strftime b"
  shows "a = b"
proof -
  obtain y m k where ya: "ymd a = (y, m, k)" by (cases "ymd a") auto
  obtain y' m' k' where yb: "ymd b = (y', m', k')" by (cases "ymd b") auto
  note ia = ymd_inv [OF ya] and ib = ymd_inv [OF yb]
  note ba = ymd_year_bounds [OF ya assms(1,2)] and bb = ymd_year_bounds [OF yb assms(3,4)]
  from eq have "pad4 (nat y) @ (''-'' @ pad2 m @ ''-'' @ pad2 (nat k))
      = pad4 (nat y') @ (''-'' @ pad2 m' @ ''-'' @ pad2 (nat k'))"
    by (simp add: strftime_def ya yb)
  then have p4: "pad4 (nat y) = pad4 (nat y')"
    and r1: "pad2 m @ (''-'' @ pad2 (nat k)) = pad2 m' @ (''-'' @ pad2 (nat k'))"
    by (simp_all add: length_pad4)
  from r1 have p2: "pad2 m = pad2 m'" and p3: "pad2 (nat k) = pad2 (nat k')"
    by (simp_all add: length_pad2)
  have "nat y < 10000" "nat y' < 10000" using ba bb by linarith+
  then have "nat y = nat y'" using p4 by (intro pad4_inj)
  then have y: "y = y'" using ba bb by linarith
  have m: "m = m'" using p2 ia(3) ib(3) by (intro pad2_inj) simp_all
  have "nat k < 100" "nat k' < 100" using ia(5) ib(5) by linarith+
  then have "nat k = nat k'" using p3 by (intro pad2_inj)
  then have k: "k = k'" using ia(4) ib(4) by linarith
  show "a = b" using ymd_inj [of a b] ya yb y m k by simp
qed

section \<open>The operations of the fetcher\<close>

lemma trace_emit [simp]: "trace (emit ev w) = trace w @ [ev]"
  by (simp add: emit_def)

lemma files_emit [simp]: "files (emit ev w) = files w"
  by (simp add: emit_def)

lemma trace_log [simp]: "trace (log lvl msg w) = trace w @ [Log lvl msg]"
  by (simp add: log_def)

lemma files_log [simp]: "files (log lvl msg w) = files w"
  by (simp add: log_def)

lemma trace_write_file [simp]: "trace (write_file p data w) = trace w @ [ToCsv p data]"
  by (simp add: write_file_def)

lemma files_write_file [simp]: "files (write_file p data w) = (files w)(p \<mapsto> data)"
  by (simp add: write_file_def)

text \<open>
  C6. A fetcher whose connected flag is false answers \<open>fetch_date_range\<close> with the empty
  mapping at once: the call raises nothing, its only effect is one error record in the
  log, so no request is sent to the gateway, no directory is made and no file is written.
\<close>

theorem fetch_date_range_unconnected:
  assumes "\<not> connected f"
  shows "fetch_date_range env f ticker start_date end_date w
           = (Inr [], w\<lparr>trace := trace w @ [Log ERROR ''Not connected to IBKR'']\<rparr>)"
  using assms by (simp add: fetch_date_range_def log_def emit_def)

theorem fetch_date_range_unconnected_witness:
  "\<not> connected (demo_fetcher\<lparr>connected := False\<rparr>)
   \<and> fetch_date_range demo_env (demo_fetcher\<lparr>connected := False\<rparr>) ''AAA'' ''2024-01-03''
         (Some ''2024-01-09'') demo_world
       = (Inr [], demo_world\<lparr>trace := trace demo_world @ [Log ERROR ''Not connected to IBKR'']\<rparr>)"
proof -
  have h: "\<not> connected (demo_fetcher\<lparr>connected := False\<rparr>)" by simp
  show ?thesis
    using h fetch_date_range_unconnected [OF h, of demo_env "''AAA''" "''2024-01-03''"
        "Some ''2024-01-09''" demo_world]
    by simp
qed

text \<open>
  C10. When the gateway's \<open>connect\<close> raises an exception, \<open>connect\<close> returns false and
  leaves the fetcher as it was; a fetcher that was not connected is still not connected,
  so each later \<open>fetch_date_range\<close> on it returns the empty mapping, whatever the outside
  world answers, until a \<open>connect\<close> that the gateway accepts sets the flag.
\<close>

theorem connect_failure_keeps_state:
  assumes "ib_connect env ''127.0.0.1'' port client_id = Some (Exception msg)"
    and "\<not> connected f"
  shows "\<exists>w'. connect env port client_id f w = (Inr False, f, w')
           \<and> files w' = files w
           \<and> fst (fetch_date_range env2 f ticker start_date end_date w2) = Inr []
           \<and> (ib_connect env3 ''127.0.0.1'' port3 client_id3 = None
                \<longrightarrow> fst (connect env3 port3 client_id3 f w3) = Inr True
                    \<and> connected (fst (snd (connect env3 port3 client_id3 f w3))))"
  using assms by (simp add: connect_def fetch_date_range_def)


theorem connect_failure_keeps_state_witness:
  "ib_connect (demo_env\<lparr>ib_connect := \<lambda>host port client_id. Some (Exception ''Connection refused'')\<rparr>)
       ''127.0.0.1'' 7496 1 = Some (Exception ''Connection refused'')
   \<and> \<not> connected (demo_fetcher\<lparr>connected := False\<rparr>)
   \<and> ib_connect demo_env ''127.0.0.1'' 7496 1 = None
   \<and> (\<exists>w'. connect (demo_env\<lparr>ib_connect := \<lambda>host port client_id. Some (Exception ''Connection refused'')\<rparr>)
               7496 1 (demo_fetcher\<lparr>connected := False\<rparr>) demo_world
             = (Inr False, demo_fetcher\<lparr>connected := False\<rparr>, w')
          \<and> files w' = files demo_world)
   \<and> fst (fetch_date_range demo_env (demo_fetcher\<lparr>connected := False\<rparr>) ''AAA'' ''2024-01-03''
            None demo_world) = Inr []
   \<and> fst (connect demo_env 7496 1 (demo_fetcher\<lparr>connected := False\<rparr>) demo_world) = Inr True
   \<and> connected (fst (snd (connect demo_env 7496 1 (demo_fetcher\<lparr>connected := False\<rparr>) demo_world)))"
proof -
  let ?envF = "demo_env\<lparr>ib_connect := \<lambda>host port client_id. Some (Exception ''Connection refused'')\<rparr>"
  let ?f = "demo_fetcher\<lparr>connected := False\<rparr>"
  have h1: "ib_connect ?envF ''127.0.0.1'' 7496 1 = Some (Exception ''Connection refused'')"
    by simp
  have h2: "\<not> connected ?f" by simp
  have h3: "ib_connect demo_env ''127.0.0.1'' 7496 1 = None" by (simp add: demo_env_def)
  from connect_failure_keeps_state [OF h1 h2, of demo_world demo_env "''AAA''" "''2024-01-03''"
      None demo_world demo_env 7496 1 demo_world] h1 h2 h3
  show ?thesis by blast
qed

text \<open>
  C7. Two saves for the same ticker and date, each meeting a file system that lets it make
  the ticker's directory and write the file (the two calls may meet different outside
  worlds, and may be given the same batch or different ones), both return the canonical
  path \<open>save_dir/TICKER/raw_TICKER_YYYY-MM-DD.csv\<close>. Each makes the directory, writes its
  batch to that path and logs the path, and does nothing else: after the first save the
  file holds the first batch, after the second it holds the second batch, and no other
  file has changed.
\<close>

theorem save_data_twice:
  assumes "to_datetime env1 date = Inr ts" and "to_datetime env2 date = Inr ts"
    and "p = save_dir f @ [ticker, ''raw_'' @ ticker @ ''_'' @ strftime ts @ ''.csv'']"
    and "mkdir_raises env1 (save_dir f @ [ticker]) = None" and "to_csv_raises env1 p = None"
    and "mkdir_raises env2 (save_dir f @ [ticker]) = None" and "to_csv_raises env2 p = None"
  shows "\<exists>w1 w2.
           save_data env1 f data1 ticker date w = (Inr (Some p), w1)
           \<and> files w1 = (files w)(p \<mapsto> data1)
           \<and> trace w1 = trace w @ [Mkdir (save_dir f @ [ticker]), ToCsv p data1,
                Log INFO (''Data saved to: '' @ str_path p)]
           \<and> save_data env2 f data2 ticker date w1 = (Inr (Some p), w2)
           \<and> files w2 = (files w)(p \<mapsto> data2)
           \<and> trace w2 = trace w1 @ [Mkdir (save_dir f @ [ticker]), ToCsv p data2,
                Log INFO (''Data saved to: '' @ str_path p)]"
  using assms
  by (simp add: save_data_def save_data_body_def Let_def log_def emit_def write_file_def)

lemma demo_strftime:
  "strftime 19725 = ''2024-01-03''"
  "strftime 19726 = ''2024-01-04''"
  "strftime 19727 = ''2024-01-05''"
  "strftime 19730 = ''2024-01-08''"
  "strftime 19731 = ''2024-01-09''"
  by code_simp+

lemma demo_env_simps:
  "ib_connect demo_env host port client_id = None"
  "mkdir_raises demo_env p = None"
  "to_csv_raises demo_env p = None"
  "zoneinfo_raises demo_env z = None"
  "read_csv_Ticker demo_env p = Inr [''AAA'', ''BBB'', ''CCC'']"
  "reqHistoricalData demo_env ticker d h m =
     (if ticker = ''BBB'' then Inl (Exception ''No security definition has been found'')
      else if d = 19726 then Inl (Exception ''Timeout'')
      else if d = 19727 then Inr []
      else Inr [nat d, nat d + 1])"
  by (simp_all add: demo_env_def)

lemma demo_fetcher_simps:
  "connected demo_fetcher"
  "save_dir demo_fetcher = [''data'', ''raw'']"
  "end_time demo_fetcher = Inr (16, 0)"
  by (simp_all add: demo_fetcher_def end_time_def)

lemma demo_save:
  "fst (save_data demo_env demo_fetcher data ''AAA'' ''2024-01-03'' w)
     = Inr (Some [''data'', ''raw'', ''AAA'', ''raw_AAA_2024-01-03.csv''])"
  by (simp add: save_data_def save_data_body_def demo_to_datetime demo_strftime
      demo_env_simps demo_fetcher_simps Let_def)

theorem save_data_twice_witness:
  "to_datetime demo_env ''2024-01-03'' = Inr 19725
   \<and> [''data'', ''raw'', ''AAA'', ''raw_AAA_2024-01-03.csv'']
       = save_dir demo_fetcher @ [''AAA'', ''raw_'' @ ''AAA'' @ ''_'' @ strftime 19725 @ ''.csv'']
   \<and> mkdir_raises demo_env (save_dir demo_fetcher @ [''AAA'']) = None
   \<and> to_csv_raises demo_env [''data'', ''raw'', ''AAA'', ''raw_AAA_2024-01-03.csv''] = None
   \<and> (\<exists>w1 w2.
         save_data demo_env demo_fetcher [1, 2] ''AAA'' ''2024-01-03'' demo_world
           = (Inr (Some [''data'', ''raw'', ''AAA'', ''raw_AAA_2024-01-03.csv'']), w1)
         \<and> files w1 = (files demo_world)
              ([''data'', ''raw'', ''AAA'', ''raw_AAA_2024-01-03.csv''] \<mapsto> [1, 2])
         \<and> trace w1 = trace demo_world @ [Mkdir (save_dir demo_fetcher @ [''AAA'']),
              ToCsv [''data'', ''raw'', ''AAA'', ''raw_AAA_2024-01-03.csv''] [1, 2],
              Log INFO (''Data saved to: ''
                @ str_path [''data'', ''raw'', ''AAA'', ''raw_AAA_2024-01-03.csv''])]
         \<and> save_data demo_env demo_fetcher [7, 8, 9] ''AAA'' ''2024-01-03'' w1
           = (Inr (Some [''data'', ''raw'', ''AAA'', ''raw_AAA_2024-01-03.csv'']), w2)
         \<and> files w2 = (files demo_world)
              ([''data'', ''raw'', ''AAA'', ''raw_AAA_2024-01-03.csv''] \<mapsto> [7, 8, 9])
         \<and> trace w2 = trace w1 @ [Mkdir (save_dir demo_fetcher @ [''AAA'']),
              ToCsv [''data'', ''raw'', ''AAA'', ''raw_AAA_2024-01-03.csv''] [7, 8, 9],
              Log INFO (''Data saved to: ''
                @ str_path [''data'', ''raw'', ''AAA'', ''raw_AAA_2024-01-03.csv''])])"
proof -
  have pth: "[''data'', ''raw'', ''AAA'', ''raw_AAA_2024-01-03.csv'']
       = save_dir demo_fetcher @ [''AAA'', ''raw_'' @ ''AAA'' @ ''_'' @ strftime 19725 @ ''.csv'']"
    by (simp add: demo_fetcher_simps demo_strftime)
  from save_data_twice [OF demo_to_datetime(1) demo_to_datetime(1) pth
      demo_env_simps(2) demo_env_simps(3) demo_env_simps(2) demo_env_simps(3),
      of "[1, 2]" demo_world "[7, 8, 9]"]
  show ?thesis
    using demo_to_datetime(1) pth demo_env_simps(2,3) by blast
qed

section \<open>One day and the loop over the days\<close>

lemma save_data_fst_indep:
  "fst (save_data env f data ticker date w) = fst (save_data env f data' ticker date w')"
  by (simp add: save_data_def save_data_body_def Let_def
      split: sum.splits option.splits prod.splits)

lemma save_data_files_None:
  "save_data env f data ticker date w = (Inr None, w') \<Longrightarrow> files w' = files w"
  by (auto simp: save_data_def save_data_body_def Let_def
      split: sum.splits option.splits prod.splits if_splits)

lemma fetch_day_cases:
  assumes "fetch_day env f ticker d r w = (Inr r', w')"
  shows "r' = r \<or>
         (\<exists>h m bars p. end_time f = Inr (h, m) \<and> reqHistoricalData env ticker d h m = Inr bars
            \<and> bars \<noteq> [] \<and> fst (save_data env f bars ticker (strftime d) w0) = Inr (Some p)
            \<and> r' = AList.update (strftime d) bars r)"
proof (cases "end_time f")
  case (Inl e)
  then show ?thesis using assms
    by (auto simp: fetch_day_def day_body_def split: if_splits)
next
  case (Inr hm)
  obtain h m where hm: "hm = (h, m)" by (cases hm) auto
  show ?thesis
  proof (cases "reqHistoricalData env ticker d h m")
    case (Inl e)
    then show ?thesis using assms Inr hm
      by (auto simp: fetch_day_def day_body_def Let_def split: if_splits)
  next
    case bars: (Inr bars)
    show ?thesis
    proof (cases "bars = []")
      case True
      then show ?thesis using assms Inr hm bars
        by (auto simp: fetch_day_def day_body_def Let_def)
    next
      case False
      let ?w1 = "emit (ReqHistoricalData ticker d h m) w"
      obtain sr w2 where sv: "save_data env f bars ticker (strftime d) ?w1 = (sr, w2)"
        by (cases "save_data env f bars ticker (strftime d) ?w1") auto
      have ind: "fst (save_data env f bars ticker (strftime d) w0) = sr"
        using save_data_fst_indep [of env f bars ticker "strftime d" w0 bars ?w1] sv by simp
      show ?thesis
      proof (cases sr)
        case (Inl e)
        then show ?thesis using assms Inr hm bars False sv
          by (auto simp: fetch_day_def day_body_def Let_def split: if_splits)
      next
        case some: (Inr po)
        show ?thesis
        proof (cases po)
          case None
          then show ?thesis using assms Inr hm bars False sv some
            by (auto simp: fetch_day_def day_body_def Let_def)
        next
          case (Some p)
          then have "r' = AList.update (strftime d) bars r"
            using assms Inr hm bars False sv some
            by (auto simp: fetch_day_def day_body_def Let_def)
          then show ?thesis using Inr hm bars False ind some Some by auto
        qed
      qed
    qed
  qed
qed

lemma fetch_day_success:
  assumes "end_time f = Inr (h, m)" and "reqHistoricalData env ticker d h m = Inr bars"
    and "bars \<noteq> []" and "fst (save_data env f bars ticker (strftime d) w0) = Inr (Some p)"
  shows "\<exists>w'. fetch_day env f ticker d r w = (Inr (AList.update (strftime d) bars r), w')"
proof -
  let ?w1 = "emit (ReqHistoricalData ticker d h m) w"
  have "fst (save_data env f bars ticker (strftime d) ?w1) = Inr (Some p)"
    using save_data_fst_indep [of env f bars ticker "strftime d" ?w1 bars w0] assms(4) by simp
  then obtain w2 where "save_data env f bars ticker (strftime d) ?w1 = (Inr (Some p), w2)"
    by (cases "save_data env f bars ticker (strftime d) ?w1") auto
  then show ?thesis using assms(1-3)
    by (simp add: fetch_day_def day_body_def Let_def)
qed

lemma fetch_day_empty:
  assumes "end_time f = Inr (h, m)" and "reqHistoricalData env ticker d h m = Inr []"
  shows "fetch_day env f ticker d r w
           = (Inr r, log WARNING (''No data available for '' @ ticker @ '' on '' @ strftime d)
                       (emit (ReqHistoricalData ticker d h m) w))"
  using assms by (simp add: fetch_day_def day_body_def Let_def)

lemma fetch_days_only_if:
  assumes "fetch_days env f ticker ds r w = (Inr r', w')" and "map_of r' k = Some df"
  shows "map_of r k = Some df \<or>
         (\<exists>d h m p. d \<in> set ds \<and> k = strftime d \<and> end_time f = Inr (h, m)
            \<and> reqHistoricalData env ticker d h m = Inr df \<and> df \<noteq> []
            \<and> fst (save_data env f df ticker k w0) = Inr (Some p))"
  using assms
proof (induction ds arbitrary: r w)
  case Nil
  then show ?case by simp
next
  case (Cons d ds)
  obtain r1 w1 where day: "fetch_day env f ticker d r w = (Inr r1, w1)"
    and rest: "fetch_days env f ticker ds r1 w1 = (Inr r', w')"
    using Cons.prems(1) by (auto split: prod.splits sum.splits)
  from Cons.IH [OF rest Cons.prems(2)] show ?case
  proof
    assume "\<exists>d h m p. d \<in> set ds \<and> k = strftime d \<and> end_time f = Inr (h, m)
            \<and> reqHistoricalData env ticker d h m = Inr df \<and> df \<noteq> []
            \<and> fst (save_data env f df ticker k w0) = Inr (Some p)"
    then show ?thesis by auto
  next
    assume in1: "map_of r1 k = Some df"
    from fetch_day_cases [OF day, of w0] show ?thesis
    proof
      assume "r1 = r"
      then show ?thesis using in1 by simp
    next
      assume "\<exists>h m bars p. end_time f = Inr (h, m) \<and> reqHistoricalData env ticker d h m = Inr bars
            \<and> bars \<noteq> [] \<and> fst (save_data env f bars ticker (strftime d) w0) = Inr (Some p)
            \<and> r1 = AList.update (strftime d) bars r"
      then obtain h m bars p where s: "end_time f = Inr (h, m)"
        "reqHistoricalData env ticker d h m = Inr bars" "bars \<noteq> []"
        "fst (save_data env f bars ticker (strftime d) w0) = Inr (Some p)"
        "r1 = AList.update (strftime d) bars r" by blast
      show ?thesis
      proof (cases "k = strftime d")
        case True
        then have "df = bars" using in1 s(5) by (simp add: update_conv')
        then show ?thesis using True s by auto
      next
        case False
        then have "map_of r k = Some df" using in1 s(5) by (simp add: update_conv')
        then show ?thesis by simp
      qed
    qed
  qed
qed

lemma fetch_days_keeps:
  assumes "fetch_days env f ticker ds r w = (Inr r', w')" and "k \<notin> strftime ` set ds"
  shows "map_of r' k = map_of r k"
  using assms
proof (induction ds arbitrary: r w)
  case Nil
  then show ?case by simp
next
  case (Cons d ds)
  obtain r1 w1 where day: "fetch_day env f ticker d r w = (Inr r1, w1)"
    and rest: "fetch_days env f ticker ds r1 w1 = (Inr r', w')"
    using Cons.prems(1) by (auto split: prod.splits sum.splits)
  have "map_of r1 k = map_of r k"
    using fetch_day_cases [OF day, of w] Cons.prems(2) by (auto simp: update_conv')
  moreover have "map_of r' k = map_of r1 k"
    using Cons.IH [OF rest] Cons.prems(2) by simp
  ultimately show ?case by simp
qed

lemma fetch_days_entry:
  assumes "fetch_days env f ticker ds r w = (Inr r', w')"
    and "inj_on strftime (set ds)" and "distinct ds" and "d \<in> set ds"
    and "end_time f = Inr (h, m)" and "reqHistoricalData env ticker d h m = Inr bars"
    and "bars \<noteq> []" and "fst (save_data env f bars ticker (strftime d) w0) = Inr (Some p)"
  shows "map_of r' (strftime d) = Some bars"
  using assms(1-4)
proof (induction ds arbitrary: r w)
  case Nil
  then show ?case by simp
next
  case (Cons x ds)
  obtain r1 w1 where day: "fetch_day env f ticker x r w = (Inr r1, w1)"
    and rest: "fetch_days env f ticker ds r1 w1 = (Inr r', w')"
    using Cons.prems(1) by (auto split: prod.splits sum.splits)
  show ?case
  proof (cases "d = x")
    case True
    obtain w2 where "fetch_day env f ticker x r w = (Inr (AList.update (strftime d) bars r), w2)"
      using fetch_day_success [OF assms(5-8), of r w] True by auto
    then have r1: "r1 = AList.update (strftime d) bars r" using day by simp
    have "strftime d \<notin> strftime ` set ds"
      using Cons.prems(2,3) True by (auto simp: inj_on_def)
    then have "map_of r' (strftime d) = map_of r1 (strftime d)"
      using fetch_days_keeps [OF rest] by simp
    then show ?thesis using r1 by (simp add: update_conv')
  next
    case False
    then have "d \<in> set ds" using Cons.prems(4) by simp
    moreover have "inj_on strftime (set ds)" "distinct ds"
      using Cons.prems(2,3) by (simp_all add: inj_on_def)
    ultimately show ?thesis using Cons.IH [OF rest] by simp
  qed
qed

lemma to_datetime_Exception:
  "raises_only_Exceptions env \<Longrightarrow> to_datetime env s = Inl e \<Longrightarrow> is_Exception e"
  by (auto simp: raises_only_Exceptions_def to_datetime_def split: sum.splits if_splits)

lemma to_datetime_bounds:
  "to_datetime env s = Inr d \<Longrightarrow> Timestamp_min \<le> d \<and> d \<le> Timestamp_max"
  by (auto simp: to_datetime_def split: sum.splits if_splits)

lemma save_data_total:
  assumes "raises_only_Exceptions env"
  shows "\<exists>po w'. save_data env f data ticker date w = (Inr po, w')"
proof (cases "to_datetime env date")
  case (Inl e)
  then show ?thesis using to_datetime_Exception [OF assms Inl]
    by (simp add: save_data_def save_data_body_def)
next
  case (Inr ts)
  then show ?thesis using assms
    by (auto simp: save_data_def save_data_body_def Let_def raises_only_Exceptions_def
        split: option.splits)
qed

lemma fetch_day_Inl:
  "fetch_day env f ticker d r w = (Inl e, w') \<Longrightarrow> \<not> is_Exception e"
  by (auto simp: fetch_day_def split: prod.splits sum.splits if_splits)

lemma day_body_Exception:
  assumes "raises_only_Exceptions env" and "day_body env f ticker d r w = (Inl e, w')"
  shows "is_Exception e"
proof (cases "end_time f")
  case (Inl x)
  then have "e = x" using assms(2) by (simp add: day_body_def)
  moreover have "is_Exception x"
    using Inl by (auto simp: end_time_def split: list.splits if_splits)
  ultimately show ?thesis by simp
next
  case (Inr hm)
  obtain h m where hm: "hm = (h, m)" by (cases hm) auto
  show ?thesis
  proof (cases "reqHistoricalData env ticker d h m")
    case (Inl x)
    then show ?thesis using assms Inr hm
      by (auto simp: day_body_def Let_def raises_only_Exceptions_def)
  next
    case bars: (Inr bars)
    obtain po w2 where
      "save_data env f bars ticker (strftime d) (emit (ReqHistoricalData ticker d h m) w)
         = (Inr po, w2)"
      using save_data_total [OF assms(1)] by blast
    then show ?thesis using assms(2) Inr hm bars
      by (auto simp: day_body_def Let_def split: if_splits option.splits)
  qed
qed

lemma fetch_day_total:
  assumes "raises_only_Exceptions env"
  shows "\<exists>r' w'. fetch_day env f ticker d r w = (Inr r', w')"
proof (cases "day_body env f ticker d r w")
  case (Pair res w1)
  show ?thesis
  proof (cases res)
    case (Inl e)
    then show ?thesis using day_body_Exception [OF assms] Pair
      by (auto simp: fetch_day_def)
  next
    case (Inr r1)
    then show ?thesis using Pair by (simp add: fetch_day_def)
  qed
qed

lemma fetch_days_total:
  assumes "raises_only_Exceptions env"
  shows "\<exists>r' w'. fetch_days env f ticker ds r w = (Inr r', w')"
proof (induction ds arbitrary: r w)
  case Nil
  then show ?case by simp
next
  case (Cons d ds)
  obtain r1 w1 where "fetch_day env f ticker d r w = (Inr r1, w1)"
    using fetch_day_total [OF assms] by blast
  then show ?case using Cons.IH [of r1 w1] by simp
qed

lemma fetch_days_Inl:
  "fetch_days env f ticker ds r w = (Inl e, w') \<Longrightarrow> \<not> is_Exception e"
proof (induction ds arbitrary: r w)
  case Nil
  then show ?case by simp
next
  case (Cons d ds)
  show ?case
  proof (cases "fetch_day env f ticker d r w")
    case (Pair res w1)
    show ?thesis
    proof (cases res)
      case (Inl x)
      then show ?thesis using Cons.prems Pair fetch_day_Inl [of env f ticker d r w x w1] by simp
    next
      case (Inr r1)
      then show ?thesis using Cons.prems Pair Cons.IH [of r1 w1] by simp
    qed
  qed
qed

lemma fetch_date_range_days:
  assumes "connected f" and "trading_days env sd ed = Inr days"
  shows "fetch_date_range env f ticker sd ed w = fetch_days env f ticker days [] w"
proof (cases "fetch_days env f ticker days [] w")
  case (Pair res w1)
  show ?thesis
  proof (cases res)
    case (Inl e)
    then show ?thesis using assms Pair fetch_days_Inl [of env f ticker days "[]" w e w1]
      by (simp add: fetch_date_range_def)
  next
    case (Inr r1)
    then show ?thesis using assms Pair by (simp add: fetch_date_range_def)
  qed
qed

lemma fetch_date_range_Inr_cases:
  assumes "fetch_date_range env f ticker sd ed w = (Inr results, w')"
  shows "results = [] \<or>
         (connected f \<and> (\<exists>days. trading_days env sd ed = Inr days
            \<and> fetch_days env f ticker days [] w = (Inr results, w')))"
proof (cases "connected f")
  case False
  then show ?thesis using assms by (simp add: fetch_date_range_def)
next
  case True
  show ?thesis
  proof (cases "trading_days env sd ed")
    case (Inl e)
    then show ?thesis using assms True
      by (auto simp: fetch_date_range_def split: if_splits)
  next
    case (Inr days)
    then show ?thesis using assms True fetch_date_range_days [OF True Inr, of ticker w] by simp
  qed
qed

lemma fetch_date_range_Inl:
  "fetch_date_range env f ticker sd ed w = (Inl e, w') \<Longrightarrow> \<not> is_Exception e"
  by (auto simp: fetch_date_range_def split: if_splits sum.splits prod.splits)

lemma trading_days_distinct:
  assumes "trading_days env sd ed = Inr days"
  shows "distinct days" and "inj_on strftime (set days)"
proof -
  obtain a b where a: "to_datetime env sd = Inr a" and days: "days = date_range_B a b"
    and b: "Timestamp_min \<le> b \<and> b \<le> Timestamp_max"
    using assms to_datetime_bounds
    by (fastforce simp: trading_days_def split: sum.splits option.splits if_splits)
  have "sorted_wrt (<) days" using days date_range_B_sorted by simp
  then show "distinct days" by (simp add: strict_sorted_iff)
  have "\<And>d. d \<in> set days \<Longrightarrow> Timestamp_min \<le> d \<and> d \<le> Timestamp_max"
    using days date_range_B_set [of a b] to_datetime_bounds [OF a] b by auto
  then show "inj_on strftime (set days)"
    by (auto simp: inj_on_def intro: strftime_inj)
qed

lemma save_data_Some_iff:
  "fst (save_data env f data ticker date w) = Inr (Some p) \<longleftrightarrow>
     (\<exists>ts. to_datetime env date = Inr ts \<and> mkdir_raises env (save_dir f @ [ticker]) = None
        \<and> p = save_dir f @ [ticker, ''raw_'' @ ticker @ ''_'' @ strftime ts @ ''.csv'']
        \<and> to_csv_raises env p = None)"
  by (auto simp: save_data_def save_data_body_def Let_def
      split: sum.splits option.splits prod.splits)

lemma save_data_trace:
  "save_data env f data ticker date w = (res, w') \<Longrightarrow> set (trace w) \<subseteq> set (trace w')"
  by (auto simp: save_data_def save_data_body_def Let_def
      split: sum.splits option.splits prod.splits if_splits)

lemma fetch_day_trace:
  assumes "fetch_day env f ticker d r w = (res, w')"
  shows "set (trace w) \<subseteq> set (trace w')"
proof (cases "end_time f")
  case (Inl e)
  then show ?thesis using assms
    by (auto simp: fetch_day_def day_body_def split: if_splits)
next
  case (Inr hm)
  obtain h m where hm: "hm = (h, m)" by (cases hm) auto
  show ?thesis
  proof (cases "reqHistoricalData env ticker d h m")
    case (Inl e)
    then show ?thesis using assms Inr hm
      by (auto simp: fetch_day_def day_body_def Let_def split: if_splits)
  next
    case bars: (Inr bars)
    let ?w1 = "emit (ReqHistoricalData ticker d h m) w"
    obtain sr w2 where sv: "save_data env f bars ticker (strftime d) ?w1 = (sr, w2)"
      by (cases "save_data env f bars ticker (strftime d) ?w1") auto
    have "set (trace w) \<subseteq> set (trace w2)"
      using save_data_trace [OF sv] by auto
    then show ?thesis using assms Inr hm bars sv
      by (auto simp: fetch_day_def day_body_def Let_def
          split: if_splits sum.splits option.splits)
  qed
qed

lemma fetch_days_trace:
  "fetch_days env f ticker ds r w = (res, w') \<Longrightarrow> set (trace w) \<subseteq> set (trace w')"
proof (induction ds arbitrary: r w)
  case Nil
  then show ?case by simp
next
  case (Cons d ds)
  show ?case
  proof (cases "fetch_day env f ticker d r w")
    case (Pair res1 w1)
    note t1 = fetch_day_trace [OF Pair]
    show ?thesis
    proof (cases res1)
      case (Inl e)
      then show ?thesis using Cons.prems Pair t1 by auto
    next
      case (Inr r1)
      then have "fetch_days env f ticker ds r1 w1 = (res, w')"
        using Cons.prems Pair by simp
      from Cons.IH [OF this] t1 show ?thesis by auto
    qed
  qed
qed

lemma fetch_day_saved:
  assumes "end_time f = Inr (h, m)" and "reqHistoricalData env ticker d h m = Inr bars"
    and "bars \<noteq> []" and "to_datetime env (strftime d) = Inr ts"
    and "p = save_dir f @ [ticker, ''raw_'' @ ticker @ ''_'' @ strftime ts @ ''.csv'']"
    and "mkdir_raises env (save_dir f @ [ticker]) = None" and "to_csv_raises env p = None"
  shows "fetch_day env f ticker d r w
           = (Inr (AList.update (strftime d) bars r),
              emit (Sleep 500)
                (log INFO (''Successfully saved '' @ str_nat (length bars) @ '' records for ''
                           @ strftime d)
                   (log INFO (''Data saved to: '' @ str_path p)
                      (write_file p bars
                         (emit (Mkdir (save_dir f @ [ticker]))
                            (emit (ReqHistoricalData ticker d h m) w))))))"
  using assms
  by (simp add: fetch_day_def day_body_def save_data_def save_data_body_def Let_def)

lemma fetch_day_raised:
  assumes "end_time f = Inr (h, m)"
    and "reqHistoricalData env ticker d h m = Inl (Exception msg)"
  shows "fetch_day env f ticker d r w
           = (Inr r,
              log ERROR (''Error fetching '' @ ticker @ '' for '' @ strftime d @ '': '' @ msg)
                (emit (ReqHistoricalData ticker d h m) w))"
  using assms by (simp add: fetch_day_def day_body_def Let_def)

lemma fetch_days_event:
  assumes "fetch_days env f ticker ds r w = (Inr r', w')" and "d \<in> set ds"
    and "\<And>r0 w0. \<exists>r1 w1. fetch_day env f ticker d r0 w0 = (Inr r1, w1) \<and> ev \<in> set (trace w1)"
  shows "ev \<in> set (trace w')"
  using assms(1,2)
proof (induction ds arbitrary: r w)
  case Nil
  then show ?case by simp
next
  case (Cons x ds)
  obtain r1 w1 where day: "fetch_day env f ticker x r w = (Inr r1, w1)"
    and rest: "fetch_days env f ticker ds r1 w1 = (Inr r', w')"
    using Cons.prems(1) by (auto split: prod.splits sum.splits)
  show ?case
  proof (cases "d = x")
    case True
    then have "ev \<in> set (trace w1)" using assms(3) [of r w] day by auto
    then show ?thesis using fetch_days_trace [OF rest] by auto
  next
    case False
    then show ?thesis using Cons.IH [OF rest] Cons.prems(2) by simp
  qed
qed

lemma fetch_day_cases_env:
  assumes "fetch_day env f ticker d r w = (Inr r', w')"
  shows "r' = r \<or>
         (\<exists>h m bars ts p. end_time f = Inr (h, m)
            \<and> reqHistoricalData env ticker d h m = Inr bars \<and> bars \<noteq> []
            \<and> to_datetime env (strftime d) = Inr ts
            \<and> p = save_dir f @ [ticker, ''raw_'' @ ticker @ ''_'' @ strftime ts @ ''.csv'']
            \<and> mkdir_raises env (save_dir f @ [ticker]) = None \<and> to_csv_raises env p = None
            \<and> r' = AList.update (strftime d) bars r
            \<and> ToCsv p bars \<in> set (trace w'))"
proof (cases "r' = r")
  case True
  then show ?thesis by simp
next
  case False
  then obtain h m bars p where s: "end_time f = Inr (h, m)"
    "reqHistoricalData env ticker d h m = Inr bars" "bars \<noteq> []"
    "fst (save_data env f bars ticker (strftime d) w) = Inr (Some p)"
    "r' = AList.update (strftime d) bars r"
    using fetch_day_cases [OF assms, of w] by blast
  from s(4) obtain ts where e: "to_datetime env (strftime d) = Inr ts"
    "mkdir_raises env (save_dir f @ [ticker]) = None"
    "p = save_dir f @ [ticker, ''raw_'' @ ticker @ ''_'' @ strftime ts @ ''.csv'']"
    "to_csv_raises env p = None"
    unfolding save_data_Some_iff by blast
  have "ToCsv p bars \<in> set (trace w')"
    using fetch_day_saved [OF s(1-3) e(1) e(3) e(2) e(4), of r w] assms by auto
  then show ?thesis using s e by blast
qed

lemma fetch_days_only_if_env:
  assumes "fetch_days env f ticker ds r w = (Inr r', w')" and "map_of r' k = Some df"
  shows "map_of r k = Some df \<or>
         (\<exists>d h m ts p. d \<in> set ds \<and> k = strftime d \<and> end_time f = Inr (h, m)
            \<and> reqHistoricalData env ticker d h m = Inr df \<and> df \<noteq> []
            \<and> to_datetime env k = Inr ts
            \<and> p = save_dir f @ [ticker, ''raw_'' @ ticker @ ''_'' @ strftime ts @ ''.csv'']
            \<and> mkdir_raises env (save_dir f @ [ticker]) = None \<and> to_csv_raises env p = None
            \<and> ToCsv p df \<in> set (trace w'))"
  using assms
proof (induction ds arbitrary: r w)
  case Nil
  then show ?case by simp
next
  case (Cons x ds)
  obtain r1 w1 where day: "fetch_day env f ticker x r w = (Inr r1, w1)"
    and rest: "fetch_days env f ticker ds r1 w1 = (Inr r', w')"
    using Cons.prems(1) by (auto split: prod.splits sum.splits)
  from Cons.IH [OF rest Cons.prems(2)] show ?case
  proof
    assume "\<exists>d h m ts p. d \<in> set ds \<and> k = strftime d \<and> end_time f = Inr (h, m)
            \<and> reqHistoricalData env ticker d h m = Inr df \<and> df \<noteq> []
            \<and> to_datetime env k = Inr ts
            \<and> p = save_dir f @ [ticker, ''raw_'' @ ticker @ ''_'' @ strftime ts @ ''.csv'']
            \<and> mkdir_raises env (save_dir f @ [ticker]) = None \<and> to_csv_raises env p = None
            \<and> ToCsv p df \<in> set (trace w')"
    then show ?thesis by auto
  next
    assume in1: "map_of r1 k = Some df"
    from fetch_day_cases_env [OF day] show ?thesis
    proof
      assume "r1 = r"
      then show ?thesis using in1 by simp
    next
      assume "\<exists>h m bars ts p. end_time f = Inr (h, m)
            \<and> reqHistoricalData env ticker x h m = Inr bars \<and> bars \<noteq> []
            \<and> to_datetime env (strftime x) = Inr ts
            \<and> p = save_dir f @ [ticker, ''raw_'' @ ticker @ ''_'' @ strftime ts @ ''.csv'']
            \<and> mkdir_raises env (save_dir f @ [ticker]) = None \<and> to_csv_raises env p = None
            \<and> r1 = AList.update (strftime x) bars r
            \<and> ToCsv p bars \<in> set (trace w1)"
      then obtain h m bars ts p where s: "end_time f = Inr (h, m)"
        "reqHistoricalData env ticker x h m = Inr bars" "bars \<noteq> []"
        "to_datetime env (strftime x) = Inr ts"
        "p = save_dir f @ [ticker, ''raw_'' @ ticker @ ''_'' @ strftime ts @ ''.csv'']"
        "mkdir_raises env (save_dir f @ [ticker]) = None" "to_csv_raises env p = None"
        "r1 = AList.update (strftime x) bars r" "ToCsv p bars \<in> set (trace w1)" by blast
      have tr: "ToCsv p bars \<in> set (trace w')" using s(9) fetch_days_trace [OF rest] by auto
      show ?thesis
      proof (cases "k = strftime x")
        case True
        then have "df = bars" using in1 s(8) by (simp add: update_conv')
        then show ?thesis using True s(1-7) tr by auto
      next
        case False
        then have "map_of r k = Some df" using in1 s(8) by (simp add: update_conv')
        then show ?thesis by simp
      qed
    qed
  qed
qed

lemma fetch_days_no_entry:
  assumes "fetch_days env f ticker ds [] w = (Inr r', w')" and "inj_on strftime (set ds)"
    and "x \<in> set ds" and "end_time f = Inr (h, m)"
    and "\<And>bars. reqHistoricalData env ticker x h m = Inr bars \<Longrightarrow> bars = []"
  shows "map_of r' (strftime x) = None"
proof (rule ccontr)
  assume "map_of r' (strftime x) \<noteq> None"
  then obtain df where "map_of r' (strftime x) = Some df" by auto
  from fetch_days_only_if_env [OF assms(1) this]
  obtain d h' m' where d: "d \<in> set ds" "strftime x = strftime d" "end_time f = Inr (h', m')"
    "reqHistoricalData env ticker d h' m' = Inr df" "df \<noteq> []"
    by auto
  have "d = x" using assms(2,3) d(1,2) by (auto simp: inj_on_def)
  then show False using assms(4,5) d(3-5) by auto
qed

lemma fetch_days_saved:
  assumes "fetch_days env f ticker ds r w = (Inr r', w')"
    and "inj_on strftime (set ds)" and "distinct ds" and "d \<in> set ds"
    and "end_time f = Inr (h, m)" and "reqHistoricalData env ticker d h m = Inr bars"
    and "bars \<noteq> []" and "to_datetime env (strftime d) = Inr ts"
    and "p = save_dir f @ [ticker, ''raw_'' @ ticker @ ''_'' @ strftime ts @ ''.csv'']"
    and "mkdir_raises env (save_dir f @ [ticker]) = None" and "to_csv_raises env p = None"
  shows "map_of r' (strftime d) = Some bars \<and> ToCsv p bars \<in> set (trace w')"
proof
  have "fst (save_data env f bars ticker (strftime d) w) = Inr (Some p)"
    unfolding save_data_Some_iff using assms(8-11) by blast
  from fetch_days_entry [OF assms(1-7) this] show "map_of r' (strftime d) = Some bars" .
  have "\<And>r0 w0. \<exists>r1 w1. fetch_day env f ticker d r0 w0 = (Inr r1, w1)
          \<and> ToCsv p bars \<in> set (trace w1)"
    using fetch_day_saved [OF assms(5-11)] by simp
  from fetch_days_event [OF assms(1) assms(4) this] show "ToCsv p bars \<in> set (trace w')" .
qed

section \<open>The mapping a range fetch returns\<close>

lemma demo_raises_only_Exceptions: "raises_only_Exceptions demo_env"
  by (auto simp: raises_only_Exceptions_def demo_env_def split: if_splits option.splits)

lemma demo_trading_days:
  "trading_days demo_env ''2024-01-03'' (Some ''2024-01-09'')
     = Inr [19725, 19726, 19727, 19730, 19731]"
proof -
  have "filter is_business_day [19725..19731] = [19725, 19726, 19727, 19730, 19731]"
    by (simp add: upto_rec1 is_business_day_def weekday_def)
  then show ?thesis
    by (simp add: trading_days_def demo_to_datetime date_range_B_filter)
qed

lemma range_fetch_isolates_failures:
  assumes "raises_only_Exceptions env" and "connected f"
    and "trading_days env start_date end_date = Inr days"
    and "end_time f = Inr (h, m)"
    and "x \<in> set days" and "reqHistoricalData env ticker x h m = Inl (Exception msg)"
    and "d \<in> set days" and "reqHistoricalData env ticker d h m = Inr bars" and "bars \<noteq> []"
    and "to_datetime env (strftime d) = Inr ts"
    and "p = save_dir f @ [ticker, ''raw_'' @ ticker @ ''_'' @ strftime ts @ ''.csv'']"
    and "mkdir_raises env (save_dir f @ [ticker]) = None" and "to_csv_raises env p = None"
  shows "\<exists>results w'. fetch_date_range env f ticker start_date end_date w = (Inr results, w')
           \<and> map_of results (strftime d) = Some bars
           \<and> ToCsv p bars \<in> set (trace w')
           \<and> map_of results (strftime x) = None
           \<and> Log ERROR (''Error fetching '' @ ticker @ '' for '' @ strftime x @ '': '' @ msg)
                \<in> set (trace w')"
proof -
  obtain results w' where run: "fetch_days env f ticker days [] w = (Inr results, w')"
    using fetch_days_total [OF assms(1)] by blast
  note inj = trading_days_distinct(2) [OF assms(3)]
  note dis = trading_days_distinct(1) [OF assms(3)]
  have ok: "map_of results (strftime d) = Some bars \<and> ToCsv p bars \<in> set (trace w')"
    using fetch_days_saved [OF run inj dis assms(7) assms(4) assms(8-13)] .
  have none: "map_of results (strftime x) = None"
    using fetch_days_no_entry [OF run inj assms(5) assms(4)] assms(6) by simp
  have "\<And>r0 w0. \<exists>r1 w1. fetch_day env f ticker x r0 w0 = (Inr r1, w1)
          \<and> Log ERROR (''Error fetching '' @ ticker @ '' for '' @ strftime x @ '': '' @ msg)
               \<in> set (trace w1)"
    using fetch_day_raised [OF assms(4) assms(6)] by simp
  from fetch_days_event [OF run assms(5) this]
  have logged: "Log ERROR (''Error fetching '' @ ticker @ '' for '' @ strftime x @ '': '' @ msg)
                  \<in> set (trace w')" .
  show ?thesis
    using run ok none logged fetch_date_range_days [OF assms(2,3), of ticker w] by simp
qed

lemma range_fetch_entries:
  "(fetch_date_range env f ticker start_date end_date w = (Inr results, w')
      \<and> map_of results k = Some df
    \<longrightarrow> (\<exists>days d h m ts p. trading_days env start_date end_date = Inr days \<and> d \<in> set days
           \<and> k = strftime d \<and> end_time f = Inr (h, m)
           \<and> reqHistoricalData env ticker d h m = Inr df \<and> df \<noteq> []
           \<and> to_datetime env k = Inr ts
           \<and> p = save_dir f @ [ticker, ''raw_'' @ ticker @ ''_'' @ strftime ts @ ''.csv'']
           \<and> mkdir_raises env (save_dir f @ [ticker]) = None \<and> to_csv_raises env p = None
           \<and> ToCsv p df \<in> set (trace w')))
   \<and> (connected f \<and> trading_days env start_date end_date = Inr days'
      \<and> d' \<in> set days' \<and> end_time f = Inr (h', m')
      \<and> reqHistoricalData env ticker d' h' m' = Inr []
    \<longrightarrow> fetch_date_range env f ticker start_date end_date w = fetch_days env f ticker days' [] w
        \<and> (\<forall>res wr. fetch_date_range env f ticker start_date end_date w = (Inr res, wr)
              \<longrightarrow> map_of res (strftime d') = None))
   \<and> (end_time f = Inr (h', m') \<and> reqHistoricalData env ticker d' h' m' = Inr []
    \<longrightarrow> fetch_day env f ticker d' r w1
          = (Inr r, w1\<lparr>trace := trace w1 @ [ReqHistoricalData ticker d' h' m',
                Log WARNING (''No data available for '' @ ticker @ '' on '' @ strftime d')]\<rparr>)
        \<and> fetch_days env f ticker (d' # rest) r w1
          = fetch_days env f ticker rest r
              (w1\<lparr>trace := trace w1 @ [ReqHistoricalData ticker d' h' m',
                Log WARNING (''No data available for '' @ ticker @ '' on '' @ strftime d')]\<rparr>))"
proof (intro conjI impI)
  assume a: "fetch_date_range env f ticker start_date end_date w = (Inr results, w')
      \<and> map_of results k = Some df"
  then have "results \<noteq> []" by auto
  then obtain days where days: "trading_days env start_date end_date = Inr days"
    and run: "fetch_days env f ticker days [] w = (Inr results, w')"
    using fetch_date_range_Inr_cases [of env f ticker start_date end_date w results w'] a
    by auto
  from fetch_days_only_if_env [OF run, of k df] a days
  show "\<exists>days d h m ts p. trading_days env start_date end_date = Inr days \<and> d \<in> set days
           \<and> k = strftime d \<and> end_time f = Inr (h, m)
           \<and> reqHistoricalData env ticker d h m = Inr df \<and> df \<noteq> []
           \<and> to_datetime env k = Inr ts
           \<and> p = save_dir f @ [ticker, ''raw_'' @ ticker @ ''_'' @ strftime ts @ ''.csv'']
           \<and> mkdir_raises env (save_dir f @ [ticker]) = None \<and> to_csv_raises env p = None
           \<and> ToCsv p df \<in> set (trace w')"
    by auto
next
  assume a: "connected f \<and> trading_days env start_date end_date = Inr days'
      \<and> d' \<in> set days' \<and> end_time f = Inr (h', m')
      \<and> reqHistoricalData env ticker d' h' m' = Inr []"
  then show eq: "fetch_date_range env f ticker start_date end_date w
      = fetch_days env f ticker days' [] w"
    using fetch_date_range_days [of f env start_date end_date days' ticker w] by simp
  show "\<forall>res wr. fetch_date_range env f ticker start_date end_date w = (Inr res, wr)
              \<longrightarrow> map_of res (strftime d') = None"
  proof (intro allI impI)
    fix res wr
    assume "fetch_date_range env f ticker start_date end_date w = (Inr res, wr)"
    then have run: "fetch_days env f ticker days' [] w = (Inr res, wr)" using eq by simp
    have inj: "inj_on strftime (set days')"
      using trading_days_distinct(2) [of env start_date end_date days'] a by simp
    show "map_of res (strftime d') = None"
      using fetch_days_no_entry [OF run inj, of d' h' m'] a by simp
  qed
next
  assume a: "end_time f = Inr (h', m') \<and> reqHistoricalData env ticker d' h' m' = Inr []"
  then show day: "fetch_day env f ticker d' r w1
          = (Inr r, w1\<lparr>trace := trace w1 @ [ReqHistoricalData ticker d' h' m',
                Log WARNING (''No data available for '' @ ticker @ '' on '' @ strftime d')]\<rparr>)"
    using fetch_day_empty [of f h' m' env ticker d' r w1] by (simp add: log_def emit_def)
  show "fetch_days env f ticker (d' # rest) r w1
          = fetch_days env f ticker rest r
              (w1\<lparr>trace := trace w1 @ [ReqHistoricalData ticker d' h' m',
                Log WARNING (''No data available for '' @ ticker @ '' on '' @ strftime d')]\<rparr>)"
    using day by simp
qed

lemma demo_run:
  "\<exists>results w'.
     fetch_date_range demo_env demo_fetcher ''AAA'' ''2024-01-03'' (Some ''2024-01-09'')
         demo_world = (Inr results, w')
     \<and> map_of results ''2024-01-09'' = Some [19731, 19732]"
proof -
  obtain results w' where
    run: "fetch_days demo_env demo_fetcher ''AAA'' [19725, 19726, 19727, 19730, 19731] []
            demo_world = (Inr results, w')"
    using fetch_days_total [OF demo_raises_only_Exceptions] by blast
  have d: "(19731 :: int) \<in> set [19725, 19726, 19727, 19730, 19731]" by simp
  have rd: "reqHistoricalData demo_env ''AAA'' 19731 16 0 = Inr [19731, 19732]"
    by (simp add: demo_env_simps)
  have ne: "[19731, 19732 :: nat] \<noteq> []" by simp
  have td: "to_datetime demo_env (strftime 19731) = Inr 19731"
    by (simp add: demo_strftime demo_to_datetime)
  have "map_of results (strftime 19731) = Some [19731, 19732]"
    using fetch_days_saved [OF run trading_days_distinct(2) [OF demo_trading_days]
        trading_days_distinct(1) [OF demo_trading_days] d demo_fetcher_simps(3) rd ne td refl
        demo_env_simps(2) demo_env_simps(3)]
    by simp
  then show ?thesis
    using run fetch_date_range_days [OF demo_fetcher_simps(1) demo_trading_days, of "''AAA''"
        demo_world]
    by (simp add: demo_strftime)
qed

lemma end_time_iff:
  "end_time f = Inr (h, m) \<longleftrightarrow>
     (\<exists>etc. market_end f = h # m # etc) \<and> 0 \<le> h \<and> h \<le> 23 \<and> 0 \<le> m \<and> m \<le> 59"
  by (auto simp: end_time_def split: list.splits if_splits)

lemma trading_days_window:
  assumes "to_datetime env start_date = Inr a"
    and "case end_date of
           None \<Rightarrow> b = a
         | Some s \<Rightarrow> if s \<noteq> [] then to_datetime env s = Inr b else b = a"
  shows "trading_days env start_date end_date = Inr (filter is_business_day [a..b])"
  using assms
  by (auto simp: trading_days_def date_range_B_filter split: option.splits if_splits)

lemma trading_days_Inr:
  assumes "trading_days env start_date end_date = Inr days"
  shows "\<exists>a b. to_datetime env start_date = Inr a
           \<and> (case end_date of
                 None \<Rightarrow> b = a
               | Some s \<Rightarrow> if s \<noteq> [] then to_datetime env s = Inr b else b = a)
           \<and> days = filter is_business_day [a..b]"
  using assms
  by (auto simp: trading_days_def date_range_B_filter split: sum.splits option.splits if_splits)

lemma in_window:
  "d \<in> set (filter is_business_day [a..b]) \<longleftrightarrow> a \<le> d \<and> d \<le> b \<and> weekday d < 5"
  by (auto simp: is_business_day_def)

text \<open>
  C2. Take an outside world that raises exceptions only, a connected fetcher with a
  well-formed closing time and a readable window in which the request of one weekday
  \<open>x\<close> raises. \<open>fetch_date_range\<close> returns a mapping all the same: the exception is caught
  in the iteration of \<open>x\<close> and logged with ticker and date, and \<open>x\<close> has no entry. Every
  other weekday \<open>d\<close> of the window whose request returns bars, and for which the outside
  world lets the save through, has its bars in the mapping under its date string and in
  the file written for it.
\<close>

theorem fetch_date_range_isolates_failures:
  assumes "raises_only_Exceptions env" and "connected f"
    and "to_datetime env start_date = Inr a"
    and "case end_date of
           None \<Rightarrow> b = a
         | Some s \<Rightarrow> if s \<noteq> [] then to_datetime env s = Inr b else b = a"
    and "market_end f = h # m # etc" and "0 \<le> h \<and> h \<le> 23 \<and> 0 \<le> m \<and> m \<le> 59"
    and "a \<le> x \<and> x \<le> b \<and> weekday x < 5"
    and "reqHistoricalData env ticker x h m = Inl (Exception msg)"
    and "a \<le> d \<and> d \<le> b \<and> weekday d < 5"
    and "reqHistoricalData env ticker d h m = Inr bars" and "bars \<noteq> []"
    and "to_datetime env (strftime d) = Inr ts"
    and "p = save_dir f @ [ticker, ''raw_'' @ ticker @ ''_'' @ strftime ts @ ''.csv'']"
    and "mkdir_raises env (save_dir f @ [ticker]) = None" and "to_csv_raises env p = None"
  shows "\<exists>results w'. fetch_date_range env f ticker start_date end_date w = (Inr results, w')
           \<and> map_of results (strftime d) = Some bars
           \<and> ToCsv p bars \<in> set (trace w')
           \<and> map_of results (strftime x) = None
           \<and> Log ERROR (''Error fetching '' @ ticker @ '' for '' @ strftime x @ '': '' @ msg)
                \<in> set (trace w')"
proof -
  note td = trading_days_window [OF assms(3,4)]
  have et: "end_time f = Inr (h, m)" using assms(5,6) by (simp add: end_time_iff)
  have xin: "x \<in> set (filter is_business_day [a..b])" using assms(7) by (simp add: is_business_day_def)
  have din: "d \<in> set (filter is_business_day [a..b])" using assms(9) by (simp add: is_business_day_def)
  show ?thesis
    using range_fetch_isolates_failures [OF assms(1,2) td et xin assms(8) din assms(10-15)] .
qed

theorem fetch_date_range_isolates_failures_witness:
  "raises_only_Exceptions demo_env \<and> connected demo_fetcher
   \<and> to_datetime demo_env ''2024-01-03'' = Inr 19725
   \<and> to_datetime demo_env ''2024-01-09'' = Inr 19731
   \<and> market_end demo_fetcher = [16, 0]
   \<and> weekday 19726 = 3 \<and> weekday 19731 = 1
   \<and> reqHistoricalData demo_env ''AAA'' 19726 16 0 = Inl (Exception ''Timeout'')
   \<and> reqHistoricalData demo_env ''AAA'' 19731 16 0 = Inr [19731, 19732]
   \<and> to_datetime demo_env (strftime 19731) = Inr 19731
   \<and> mkdir_raises demo_env (save_dir demo_fetcher @ [''AAA'']) = None
   \<and> to_csv_raises demo_env [''data'', ''raw'', ''AAA'', ''raw_AAA_2024-01-09.csv''] = None
   \<and> (\<exists>results w'.
         fetch_date_range demo_env demo_fetcher ''AAA'' ''2024-01-03'' (Some ''2024-01-09'')
             demo_world = (Inr results, w')
         \<and> map_of results ''2024-01-09'' = Some [19731, 19732]
         \<and> ToCsv [''data'', ''raw'', ''AAA'', ''raw_AAA_2024-01-09.csv''] [19731, 19732]
              \<in> set (trace w')
         \<and> map_of results ''2024-01-04'' = None
         \<and> Log ERROR ''Error fetching AAA for 2024-01-04: Timeout'' \<in> set (trace w'))"
proof -
  have win: "case Some ''2024-01-09'' of
          None \<Rightarrow> (19731 :: int) = 19725
        | Some s \<Rightarrow> if s \<noteq> [] then to_datetime demo_env s = Inr 19731 else (19731 :: int) = 19725"
    by (simp add: demo_to_datetime)
  have me: "market_end demo_fetcher = 16 # 0 # []" by (simp add: demo_fetcher_def)
  have hm: "(0 :: int) \<le> 16 \<and> (16 :: int) \<le> 23 \<and> (0 :: int) \<le> 0 \<and> (0 :: int) \<le> 59" by simp
  have x: "(19725 :: int) \<le> 19726 \<and> (19726 :: int) \<le> 19731 \<and> weekday 19726 < 5"
    by (simp add: weekday_def)
  have d: "(19725 :: int) \<le> 19731 \<and> (19731 :: int) \<le> 19731 \<and> weekday 19731 < 5"
    by (simp add: weekday_def)
  have rx: "reqHistoricalData demo_env ''AAA'' 19726 16 0 = Inl (Exception ''Timeout'')"
    by (simp add: demo_env_simps)
  have rd: "reqHistoricalData demo_env ''AAA'' 19731 16 0 = Inr [19731, 19732]"
    by (simp add: demo_env_simps)
  have ne: "[19731, 19732 :: nat] \<noteq> []" by simp
  have td: "to_datetime demo_env (strftime 19731) = Inr 19731"
    by (simp add: demo_strftime demo_to_datetime)
  have pth: "[''data'', ''raw'', ''AAA'', ''raw_AAA_2024-01-09.csv'']
       = save_dir demo_fetcher @ [''AAA'', ''raw_'' @ ''AAA'' @ ''_'' @ strftime 19731 @ ''.csv'']"
    by (simp add: demo_fetcher_simps demo_strftime)
  from fetch_date_range_isolates_failures [OF demo_raises_only_Exceptions
      demo_fetcher_simps(1) demo_to_datetime(1) win me hm x rx d rd ne td pth
      demo_env_simps(2) demo_env_simps(3), of demo_world]
  show ?thesis
    using demo_raises_only_Exceptions demo_fetcher_simps(1) demo_to_datetime(1,4) me rx rd td
      demo_env_simps(2,3)
    by (simp add: demo_strftime weekday_def)
qed

text \<open>
  C3. A date string is a key of the mapping \<open>fetch_date_range\<close> returns, with a batch as
  its value, only if it is the date of a weekday of the window whose request returned
  that batch, the batch is not empty, the outside world let the save through and the
  batch was written to the day's file. On a connected fetcher with a well-formed closing
  time the call is the loop over the weekdays of the window, and a day whose request
  returns no bars has no entry in the mapping. In the iteration of such a day the fetcher
  sends the request and logs a warning, and does nothing else: the mapping and the files
  are as before, and the loop goes on with the days that follow.
\<close>

theorem fetch_date_range_entries:
  "(fetch_date_range env f ticker start_date end_date w = (Inr results, w')
      \<and> map_of results k = Some df
    \<longrightarrow> (\<exists>a b d h m etc ts p. to_datetime env start_date = Inr a
           \<and> (case end_date of
                 None \<Rightarrow> b = a
               | Some s \<Rightarrow> if s \<noteq> [] then to_datetime env s = Inr b else b = a)
           \<and> a \<le> d \<and> d \<le> b \<and> weekday d < 5 \<and> k = strftime d
           \<and> market_end f = h # m # etc \<and> 0 \<le> h \<and> h \<le> 23 \<and> 0 \<le> m \<and> m \<le> 59
           \<and> reqHistoricalData env ticker d h m = Inr df \<and> df \<noteq> []
           \<and> to_datetime env k = Inr ts
           \<and> p = save_dir f @ [ticker, ''raw_'' @ ticker @ ''_'' @ strftime ts @ ''.csv'']
           \<and> mkdir_raises env (save_dir f @ [ticker]) = None \<and> to_csv_raises env p = None
           \<and> ToCsv p df \<in> set (trace w')))
   \<and> (connected f \<and> to_datetime env start_date = Inr a'
      \<and> (case end_date of
            None \<Rightarrow> b' = a'
          | Some s \<Rightarrow> if s \<noteq> [] then to_datetime env s = Inr b' else b' = a')
      \<and> a' \<le> d' \<and> d' \<le> b' \<and> weekday d' < 5
      \<and> market_end f = h' # m' # etc' \<and> 0 \<le> h' \<and> h' \<le> 23 \<and> 0 \<le> m' \<and> m' \<le> 59
      \<and> reqHistoricalData env ticker d' h' m' = Inr []
    \<longrightarrow> fetch_date_range env f ticker start_date end_date w
          = fetch_days env f ticker (filter is_business_day [a'..b']) [] w
        \<and> (\<exists>res wr. fetch_date_range env f ticker start_date end_date w = (res, wr)
              \<and> (case res of Inl e \<Rightarrow> True | Inr r \<Rightarrow> map_of r (strftime d') = None)))
   \<and> (market_end f = h' # m' # etc' \<and> 0 \<le> h' \<and> h' \<le> 23 \<and> 0 \<le> m' \<and> m' \<le> 59
      \<and> reqHistoricalData env ticker d' h' m' = Inr []
    \<longrightarrow> fetch_day env f ticker d' r w1
          = (Inr r, w1\<lparr>trace := trace w1 @ [ReqHistoricalData ticker d' h' m',
                Log WARNING (''No data available for '' @ ticker @ '' on '' @ strftime d')]\<rparr>)
        \<and> fetch_days env f ticker (d' # rest) r w1
          = fetch_days env f ticker rest r
              (w1\<lparr>trace := trace w1 @ [ReqHistoricalData ticker d' h' m',
                Log WARNING (''No data available for '' @ ticker @ '' on '' @ strftime d')]\<rparr>))"
proof (intro conjI impI)
  assume a: "fetch_date_range env f ticker start_date end_date w = (Inr results, w')
      \<and> map_of results k = Some df"
  from range_fetch_entries [THEN conjunct1, THEN mp, OF a]
  obtain days d h m ts p where
    days: "trading_days env start_date end_date = Inr days" and d: "d \<in> set days"
    and k: "k = strftime d" and et: "end_time f = Inr (h, m)"
    and req: "reqHistoricalData env ticker d h m = Inr df" and ne: "df \<noteq> []"
    and ts: "to_datetime env k = Inr ts"
    and p: "p = save_dir f @ [ticker, ''raw_'' @ ticker @ ''_'' @ strftime ts @ ''.csv'']"
    and mk: "mkdir_raises env (save_dir f @ [ticker]) = None"
    and csv: "to_csv_raises env p = None" and tr: "ToCsv p df \<in> set (trace w')"
    by (elim exE conjE) (rule that, assumption+)
  from trading_days_Inr [OF days] obtain a b where
    sa: "to_datetime env start_date = Inr a"
    and sb: "case end_date of
               None \<Rightarrow> b = a
             | Some s \<Rightarrow> if s \<noteq> [] then to_datetime env s = Inr b else b = a"
    and dd: "days = filter is_business_day [a..b]"
    by (elim exE conjE) (rule that, assumption+)
  have din: "a \<le> d" "d \<le> b" "weekday d < 5" using d dd by (simp_all add: is_business_day_def)
  from et obtain etc where me: "market_end f = h # m # etc"
    and hm: "0 \<le> h" "h \<le> 23" "0 \<le> m" "m \<le> 59"
    by (auto simp: end_time_iff)
  show "\<exists>a b d h m etc ts p. to_datetime env start_date = Inr a
           \<and> (case end_date of
                 None \<Rightarrow> b = a
               | Some s \<Rightarrow> if s \<noteq> [] then to_datetime env s = Inr b else b = a)
           \<and> a \<le> d \<and> d \<le> b \<and> weekday d < 5 \<and> k = strftime d
           \<and> market_end f = h # m # etc \<and> 0 \<le> h \<and> h \<le> 23 \<and> 0 \<le> m \<and> m \<le> 59
           \<and> reqHistoricalData env ticker d h m = Inr df \<and> df \<noteq> []
           \<and> to_datetime env k = Inr ts
           \<and> p = save_dir f @ [ticker, ''raw_'' @ ticker @ ''_'' @ strftime ts @ ''.csv'']
           \<and> mkdir_raises env (save_dir f @ [ticker]) = None \<and> to_csv_raises env p = None
           \<and> ToCsv p df \<in> set (trace w')"
    by (intro exI [of _ a] exI [of _ b] exI [of _ d] exI [of _ h] exI [of _ m] exI [of _ etc]
        exI [of _ ts] exI [of _ p] conjI sa sb din k me hm req ne ts p mk csv tr)
next
  assume a: "connected f \<and> to_datetime env start_date = Inr a'
      \<and> (case end_date of
            None \<Rightarrow> b' = a'
          | Some s \<Rightarrow> if s \<noteq> [] then to_datetime env s = Inr b' else b' = a')
      \<and> a' \<le> d' \<and> d' \<le> b' \<and> weekday d' < 5
      \<and> market_end f = h' # m' # etc' \<and> 0 \<le> h' \<and> h' \<le> 23 \<and> 0 \<le> m' \<and> m' \<le> 59
      \<and> reqHistoricalData env ticker d' h' m' = Inr []"
  have td: "trading_days env start_date end_date = Inr (filter is_business_day [a'..b'])"
    using a trading_days_window [of env start_date a' b' end_date] by blast
  have et: "end_time f = Inr (h', m')" using a by (simp add: end_time_iff)
  have din: "d' \<in> set (filter is_business_day [a'..b'])" using a by (simp add: is_business_day_def)
  have pre: "connected f \<and> trading_days env start_date end_date
        = Inr (filter is_business_day [a'..b'])
      \<and> d' \<in> set (filter is_business_day [a'..b']) \<and> end_time f = Inr (h', m')
      \<and> reqHistoricalData env ticker d' h' m' = Inr []"
    using a td et din by blast
  note t = range_fetch_entries [THEN conjunct2, THEN conjunct1, THEN mp, OF pre]
  show "fetch_date_range env f ticker start_date end_date w
          = fetch_days env f ticker (filter is_business_day [a'..b']) [] w"
    using t [of w] by blast
  obtain res wr where run: "fetch_date_range env f ticker start_date end_date w = (res, wr)"
    by (cases "fetch_date_range env f ticker start_date end_date w") auto
  have "case res of Inl e \<Rightarrow> True | Inr r \<Rightarrow> map_of r (strftime d') = None"
    using t [of w] run by (cases res) auto
  then show "\<exists>res wr. fetch_date_range env f ticker start_date end_date w = (res, wr)
              \<and> (case res of Inl e \<Rightarrow> True | Inr r \<Rightarrow> map_of r (strftime d') = None)"
    using run by blast
next
  assume a: "market_end f = h' # m' # etc' \<and> 0 \<le> h' \<and> h' \<le> 23 \<and> 0 \<le> m' \<and> m' \<le> 59
      \<and> reqHistoricalData env ticker d' h' m' = Inr []"
  have pre: "end_time f = Inr (h', m') \<and> reqHistoricalData env ticker d' h' m' = Inr []"
    using a by (simp add: end_time_iff)
  note t = range_fetch_entries [THEN conjunct2, THEN conjunct2, THEN mp, OF pre]
  show "fetch_day env f ticker d' r w1
          = (Inr r, w1\<lparr>trace := trace w1 @ [ReqHistoricalData ticker d' h' m',
                Log WARNING (''No data available for '' @ ticker @ '' on '' @ strftime d')]\<rparr>)"
    using t [of r w1] by blast
  show "fetch_days env f ticker (d' # rest) r w1
          = fetch_days env f ticker rest r
              (w1\<lparr>trace := trace w1 @ [ReqHistoricalData ticker d' h' m',
                Log WARNING (''No data available for '' @ ticker @ '' on '' @ strftime d')]\<rparr>)"
    using t [of r w1 rest] by blast
qed
theorem fetch_date_range_entries_witness:
  "connected demo_fetcher
   \<and> to_datetime demo_env ''2024-01-03'' = Inr 19725
   \<and> to_datetime demo_env ''2024-01-09'' = Inr 19731
   \<and> weekday 19727 = 4
   \<and> market_end demo_fetcher = [16, 0]
   \<and> reqHistoricalData demo_env ''AAA'' 19727 16 0 = Inr []
   \<and> (\<exists>results w'.
         fetch_date_range demo_env demo_fetcher ''AAA'' ''2024-01-03'' (Some ''2024-01-09'')
             demo_world = (Inr results, w')
         \<and> map_of results ''2024-01-09'' = Some [19731, 19732]
         \<and> (\<exists>a b d h m etc ts p.
               to_datetime demo_env ''2024-01-03'' = Inr a
               \<and> to_datetime demo_env ''2024-01-09'' = Inr b
               \<and> a \<le> d \<and> d \<le> b \<and> weekday d < 5 \<and> ''2024-01-09'' = strftime d
               \<and> market_end demo_fetcher = h # m # etc
               \<and> 0 \<le> h \<and> h \<le> 23 \<and> 0 \<le> m \<and> m \<le> 59
               \<and> reqHistoricalData demo_env ''AAA'' d h m = Inr [19731, 19732]
               \<and> [19731, 19732 :: nat] \<noteq> []
               \<and> to_datetime demo_env ''2024-01-09'' = Inr ts
               \<and> p = save_dir demo_fetcher
                        @ [''AAA'', ''raw_'' @ ''AAA'' @ ''_'' @ strftime ts @ ''.csv'']
               \<and> mkdir_raises demo_env (save_dir demo_fetcher @ [''AAA'']) = None
               \<and> to_csv_raises demo_env p = None
               \<and> ToCsv p [19731, 19732] \<in> set (trace w'))
         \<and> map_of results (strftime 19727) = None)
   \<and> fetch_date_range demo_env demo_fetcher ''AAA'' ''2024-01-03'' (Some ''2024-01-09'')
         demo_world
       = fetch_days demo_env demo_fetcher ''AAA'' (filter is_business_day [19725..19731]) []
           demo_world
   \<and> fetch_day demo_env demo_fetcher ''AAA'' 19727 [] demo_world
       = (Inr [], demo_world\<lparr>trace := trace demo_world @ [ReqHistoricalData ''AAA'' 19727 16 0,
            Log WARNING (''No data available for '' @ ''AAA'' @ '' on '' @ strftime 19727)]\<rparr>)
   \<and> fetch_days demo_env demo_fetcher ''AAA'' (19727 # [19730, 19731]) [] demo_world
       = fetch_days demo_env demo_fetcher ''AAA'' [19730, 19731] []
           (demo_world\<lparr>trace := trace demo_world @ [ReqHistoricalData ''AAA'' 19727 16 0,
            Log WARNING (''No data available for '' @ ''AAA'' @ '' on '' @ strftime 19727)]\<rparr>)"
proof -
  obtain results w' where
    run: "fetch_date_range demo_env demo_fetcher ''AAA'' ''2024-01-03'' (Some ''2024-01-09'')
            demo_world = (Inr results, w')"
    and e: "map_of results ''2024-01-09'' = Some [19731, 19732]"
    using demo_run by blast
  have emp: "reqHistoricalData demo_env ''AAA'' 19727 16 0 = Inr []"
    by (simp add: demo_env_simps)
  have me: "market_end demo_fetcher = 16 # 0 # []" by (simp add: demo_fetcher_def)
  have wd: "weekday 19727 = 4" by (simp add: weekday_def)
  have nn: "''2024-01-09'' \<noteq> []" by simp
  note t = fetch_date_range_entries [where env = demo_env and f = demo_fetcher
      and ticker = "''AAA''" and start_date = "''2024-01-03''"
      and end_date = "Some ''2024-01-09''" and w = demo_world and results = results
      and w' = w' and k = "''2024-01-09''" and df = "[19731, 19732]"
      and a' = 19725 and b' = 19731 and d' = 19727 and h' = 16 and m' = 0 and etc' = "[]"
      and r = "[]" and ?w1.0 = demo_world and rest = "[19730, 19731]"]
  have A: "\<exists>a b d h m etc ts p.
               to_datetime demo_env ''2024-01-03'' = Inr a
               \<and> to_datetime demo_env ''2024-01-09'' = Inr b
               \<and> a \<le> d \<and> d \<le> b \<and> weekday d < 5 \<and> ''2024-01-09'' = strftime d
               \<and> market_end demo_fetcher = h # m # etc
               \<and> 0 \<le> h \<and> h \<le> 23 \<and> 0 \<le> m \<and> m \<le> 59
               \<and> reqHistoricalData demo_env ''AAA'' d h m = Inr [19731, 19732]
               \<and> [19731, 19732 :: nat] \<noteq> []
               \<and> to_datetime demo_env ''2024-01-09'' = Inr ts
               \<and> p = save_dir demo_fetcher
                        @ [''AAA'', ''raw_'' @ ''AAA'' @ ''_'' @ strftime ts @ ''.csv'']
               \<and> mkdir_raises demo_env (save_dir demo_fetcher @ [''AAA'']) = None
               \<and> to_csv_raises demo_env p = None
               \<and> ToCsv p [19731, 19732] \<in> set (trace w')"
    using t [THEN conjunct1, THEN mp, OF conjI [OF run e]]
    unfolding option.case if_P [OF nn] .
  have pre: "connected demo_fetcher \<and> to_datetime demo_env ''2024-01-03'' = Inr 19725
      \<and> (case Some ''2024-01-09'' of
            None \<Rightarrow> (19731 :: int) = 19725
          | Some s \<Rightarrow> if s \<noteq> [] then to_datetime demo_env s = Inr 19731
                        else (19731 :: int) = 19725)
      \<and> (19725 :: int) \<le> 19727 \<and> (19727 :: int) \<le> 19731 \<and> weekday 19727 < 5
      \<and> market_end demo_fetcher = 16 # 0 # []
      \<and> (0 :: int) \<le> 16 \<and> (16 :: int) \<le> 23 \<and> (0 :: int) \<le> 0 \<and> (0 :: int) \<le> 59
      \<and> reqHistoricalData demo_env ''AAA'' 19727 16 0 = Inr []"
    using demo_fetcher_simps(1) demo_to_datetime(1,4) me wd emp by simp
  note tB = t [THEN conjunct2, THEN conjunct1, THEN mp, OF pre]
  have B: "fetch_date_range demo_env demo_fetcher ''AAA'' ''2024-01-03'' (Some ''2024-01-09'')
         demo_world
       = fetch_days demo_env demo_fetcher ''AAA'' (filter is_business_day [19725..19731]) []
           demo_world
       \<and> map_of results (strftime 19727) = None"
    using tB run by auto
  have pre2: "market_end demo_fetcher = 16 # 0 # []
      \<and> (0 :: int) \<le> 16 \<and> (16 :: int) \<le> 23 \<and> (0 :: int) \<le> 0 \<and> (0 :: int) \<le> 59
      \<and> reqHistoricalData demo_env ''AAA'' 19727 16 0 = Inr []"
    using me emp by simp
  note C = t [THEN conjunct2, THEN conjunct2, THEN mp, OF pre2]
  show ?thesis
    using demo_fetcher_simps(1) demo_to_datetime(1,4) wd me emp run e A B C by blast
qed

section \<open>The events of a range fetch\<close>

lemma save_data_events:
  "save_data env f data ticker date w = (res, w') \<Longrightarrow>
     \<exists>evs. trace w' = trace w @ evs \<and> list_all fetch_event evs"
  by (auto simp: save_data_def save_data_body_def Let_def
      split: sum.splits option.splits prod.splits if_splits)

lemma fetch_day_events:
  assumes "fetch_day env f ticker d r w = (res, w')"
  shows "\<exists>evs. trace w' = trace w @ evs \<and> list_all fetch_event evs"
proof (cases "end_time f")
  case (Inl e)
  then show ?thesis using assms
    by (auto simp: fetch_day_def day_body_def split: if_splits)
next
  case (Inr hm)
  obtain h m where hm: "hm = (h, m)" by (cases hm) auto
  show ?thesis
  proof (cases "reqHistoricalData env ticker d h m")
    case (Inl e)
    then show ?thesis using assms Inr hm
      by (auto simp: fetch_day_def day_body_def Let_def split: if_splits)
  next
    case bars: (Inr bars)
    let ?w1 = "emit (ReqHistoricalData ticker d h m) w"
    obtain sr w2 where sv: "save_data env f bars ticker (strftime d) ?w1 = (sr, w2)"
      by (cases "save_data env f bars ticker (strftime d) ?w1") auto
    obtain evs where "trace w2 = trace ?w1 @ evs" "list_all fetch_event evs"
      using save_data_events [OF sv] by blast
    then have "trace w2 = trace w @ (ReqHistoricalData ticker d h m # evs)"
      "list_all fetch_event (ReqHistoricalData ticker d h m # evs)" by simp_all
    then show ?thesis using assms Inr hm bars sv
      by (auto simp: fetch_day_def day_body_def Let_def
          split: if_splits sum.splits option.splits)
  qed
qed

lemma fetch_days_events:
  "fetch_days env f ticker ds r w = (res, w') \<Longrightarrow>
     \<exists>evs. trace w' = trace w @ evs \<and> list_all fetch_event evs"
proof (induction ds arbitrary: r w)
  case Nil
  then show ?case by simp
next
  case (Cons d ds)
  show ?case
  proof (cases "fetch_day env f ticker d r w")
    case (Pair res1 w1)
    obtain evs1 where e1: "trace w1 = trace w @ evs1" "list_all fetch_event evs1"
      using fetch_day_events [OF Pair] by blast
    show ?thesis
    proof (cases res1)
      case (Inl e)
      then show ?thesis using Cons.prems Pair e1 by auto
    next
      case (Inr r1)
      then have "fetch_days env f ticker ds r1 w1 = (res, w')"
        using Cons.prems Pair by simp
      from Cons.IH [OF this] obtain evs2 where
        "trace w' = trace w1 @ evs2" "list_all fetch_event evs2" by blast
      then have "trace w' = trace w @ (evs1 @ evs2)" "list_all fetch_event (evs1 @ evs2)"
        using e1 by simp_all
      then show ?thesis by blast
    qed
  qed
qed

lemma fetch_date_range_events:
  assumes "fetch_date_range env f ticker sd ed w = (res, w')"
  shows "\<exists>evs. trace w' = trace w @ evs \<and> list_all fetch_event evs"
proof (cases "connected f")
  case False
  then show ?thesis using assms by (auto simp: fetch_date_range_def)
next
  case True
  show ?thesis
  proof (cases "trading_days env sd ed")
    case (Inl e)
    then show ?thesis using assms True
      by (auto simp: fetch_date_range_def split: if_splits)
  next
    case (Inr days)
    obtain res1 w1 where run: "fetch_days env f ticker days [] w = (res1, w1)"
      by (cases "fetch_days env f ticker days [] w") auto
    obtain evs where "trace w1 = trace w @ evs" "list_all fetch_event evs"
      using fetch_days_events [OF run] by blast
    then show ?thesis using assms True Inr run
      by (auto simp: fetch_date_range_def split: sum.splits if_splits)
  qed
qed

lemma count_fetch_events:
  "list_all fetch_event evs \<Longrightarrow> \<not> fetch_event ev \<Longrightarrow> count_list evs ev = 0"
  by (induction evs) auto

lemma fetch_date_range_count:
  assumes "fetch_date_range env f ticker sd ed w = (res, w')" and "\<not> fetch_event ev"
  shows "count_list (trace w') ev = count_list (trace w) ev"
proof -
  obtain evs where "trace w' = trace w @ evs" "list_all fetch_event evs"
    using fetch_date_range_events [OF assms(1)] by blast
  then show ?thesis using count_fetch_events [OF _ assms(2)] by simp
qed

lemma fetch_date_range_total:
  assumes "raises_only_Exceptions env"
  shows "\<exists>data w'. fetch_date_range env f ticker sd ed w = (Inr data, w')"
proof (cases "fetch_date_range env f ticker sd ed w")
  case (Pair res w')
  show ?thesis
  proof (cases res)
    case (Inr data)
    then show ?thesis using Pair by simp
  next
    case (Inl e)
    have ne: "\<not> is_Exception e" using fetch_date_range_Inl Pair Inl by blast
    have c: "connected f" using Pair Inl by (auto simp: fetch_date_range_def split: if_splits)
    show ?thesis
    proof (cases "trading_days env sd ed")
      case l: (Inl x)
      then have "is_Exception x"
        using to_datetime_Exception [OF assms]
        by (auto simp: trading_days_def split: sum.splits option.splits if_splits)
      then show ?thesis using l c by (simp add: fetch_date_range_def)
    next
      case (Inr days)
      then show ?thesis
        using fetch_days_total [OF assms, of f ticker days "[]" w]
          fetch_date_range_days [OF c Inr, of ticker w] by auto
    qed
  qed
qed

section \<open>The loop over the tickers\<close>

lemma fetch_day_fst_indep:
  "fst (fetch_day env f ticker d r w) = fst (fetch_day env f ticker d r w')"
proof (cases "end_time f")
  case (Inl e)
  then show ?thesis by (simp add: fetch_day_def day_body_def)
next
  case (Inr hm)
  obtain h m where hm: "hm = (h, m)" by (cases hm) auto
  show ?thesis
  proof (cases "reqHistoricalData env ticker d h m")
    case (Inl e)
    then show ?thesis using Inr hm by (simp add: fetch_day_def day_body_def Let_def)
  next
    case bars: (Inr bars)
    let ?w1 = "emit (ReqHistoricalData ticker d h m) w"
    let ?w1' = "emit (ReqHistoricalData ticker d h m) w'"
    obtain sr w2 where sv: "save_data env f bars ticker (strftime d) ?w1 = (sr, w2)"
      by (cases "save_data env f bars ticker (strftime d) ?w1") auto
    obtain sr' w2' where sv': "save_data env f bars ticker (strftime d) ?w1' = (sr', w2')"
      by (cases "save_data env f bars ticker (strftime d) ?w1'") auto
    have "sr = sr'"
      using save_data_fst_indep [of env f bars ticker "strftime d" ?w1 bars ?w1'] sv sv'
      by simp
    then show ?thesis using Inr hm bars sv sv'
      by (simp add: fetch_day_def day_body_def Let_def split: sum.splits option.splits)
  qed
qed

lemma fetch_days_fst_indep:
  "fst (fetch_days env f ticker ds r w) = fst (fetch_days env f ticker ds r w')"
proof (induction ds arbitrary: r w w')
  case Nil
  then show ?case by simp
next
  case (Cons d ds)
  obtain res1 w1 where a: "fetch_day env f ticker d r w = (res1, w1)"
    by (cases "fetch_day env f ticker d r w") auto
  obtain res2 w2 where b: "fetch_day env f ticker d r w' = (res2, w2)"
    by (cases "fetch_day env f ticker d r w'") auto
  have "res1 = res2" using fetch_day_fst_indep [of env f ticker d r w w'] a b by simp
  then show ?case using a b Cons.IH by (auto split: sum.splits)
qed

lemma fetch_date_range_fst_indep:
  "fst (fetch_date_range env f ticker sd ed w) = fst (fetch_date_range env f ticker sd ed w')"
proof (cases "trading_days env sd ed")
  case (Inl e)
  then show ?thesis by (simp add: fetch_date_range_def)
next
  case (Inr days)
  obtain res1 w1 where a: "fetch_days env f ticker days [] w = (res1, w1)"
    by (cases "fetch_days env f ticker days [] w") auto
  obtain res2 w2 where b: "fetch_days env f ticker days [] w' = (res2, w2)"
    by (cases "fetch_days env f ticker days [] w'") auto
  have "res1 = res2" using fetch_days_fst_indep [of env f ticker days "[]" w w'] a b by simp
  then show ?thesis using Inr a b
    by (simp add: fetch_date_range_def split: sum.splits)
qed

lemma ticker_body_Inl:
  "ticker_body env f start stop n idx ticker results w = (Inl e, w') \<Longrightarrow> \<not> is_Exception e"
  using fetch_date_range_Inl
  by (fastforce simp: ticker_body_def Let_def split: prod.splits sum.splits)

lemma fetch_ticker_eq_body:
  "fetch_ticker env f start stop n idx ticker results w
     = ticker_body env f start stop n idx ticker results w"
proof (cases "ticker_body env f start stop n idx ticker results w")
  case (Pair res w')
  then show ?thesis using ticker_body_Inl [of env f start stop n idx ticker results w]
    by (cases res) (auto simp: fetch_ticker_def)
qed

lemma fetch_ticker_events:
  assumes "fetch_ticker env f start stop n idx ticker results w = (res, w')"
  shows "\<exists>evs. trace w' = trace w @ evs \<and> list_all (\<lambda>e. fetch_event e \<or> e = Sleep 1000) evs"
proof -
  let ?w1 = "log INFO (''Processing '' @ ticker @ '' ('' @ str_nat idx @ ''/''
                         @ str_nat n @ '')'') w"
  obtain res1 w2 where fr: "fetch_date_range env f ticker start (Some stop) ?w1 = (res1, w2)"
    by (cases "fetch_date_range env f ticker start (Some stop) ?w1") auto
  obtain evs where evs: "trace w2 = trace ?w1 @ evs" "list_all fetch_event evs"
    using fetch_date_range_events [OF fr] by blast
  have weak: "list_all (\<lambda>e. fetch_event e \<or> e = Sleep 1000) evs"
    using evs(2) by (simp add: list_all_iff)
  show ?thesis
    using assms fr evs(1) weak
    by (auto simp: fetch_ticker_eq_body ticker_body_def Let_def split: sum.splits if_splits)
qed

lemma fetch_tickers_events:
  "fetch_tickers env f start stop n idx tickers results w = (res, w') \<Longrightarrow>
     \<exists>evs. trace w' = trace w @ evs \<and> list_all (\<lambda>e. fetch_event e \<or> e = Sleep 1000) evs"
proof (induction tickers arbitrary: idx results w)
  case Nil
  then show ?case by simp
next
  case (Cons t ts)
  show ?case
  proof (cases "fetch_ticker env f start stop n idx t results w")
    case (Pair res1 w1)
    obtain evs1 where e1: "trace w1 = trace w @ evs1"
      "list_all (\<lambda>e. fetch_event e \<or> e = Sleep 1000) evs1"
      using fetch_ticker_events [OF Pair] by blast
    show ?thesis
    proof (cases res1)
      case (Inl e)
      then show ?thesis using Cons.prems Pair e1 by auto
    next
      case (Inr r1)
      then have "fetch_tickers env f start stop n (Suc idx) ts r1 w1 = (res, w')"
        using Cons.prems Pair by simp
      from Cons.IH [OF this] obtain evs2 where
        "trace w' = trace w1 @ evs2" "list_all (\<lambda>e. fetch_event e \<or> e = Sleep 1000) evs2"
        by blast
      then have "trace w' = trace w @ (evs1 @ evs2)"
        "list_all (\<lambda>e. fetch_event e \<or> e = Sleep 1000) (evs1 @ evs2)"
        using e1 by simp_all
      then show ?thesis by blast
    qed
  qed
qed

lemma count_no_disconnect:
  "list_all (\<lambda>e. fetch_event e \<or> e = Sleep 1000) evs \<Longrightarrow> count_list evs IBDisconnect = 0"
  by (induction evs) auto

lemma fetch_ticker_ok:
  assumes "raises_only_Exceptions env"
  shows "\<exists>data w3.
           fetch_ticker env f start stop n idx ticker results w
             = (Inr (AList.update ticker data results), emit (Sleep 1000) w3)
           \<and> fst (fetch_date_range env f ticker start (Some stop) w0) = Inr data
           \<and> count_list (trace w3) (Sleep 1000) = count_list (trace w) (Sleep 1000)"
proof -
  let ?w1 = "log INFO (''Processing '' @ ticker @ '' ('' @ str_nat idx @ ''/''
                         @ str_nat n @ '')'') w"
  obtain data w2 where fr: "fetch_date_range env f ticker start (Some stop) ?w1 = (Inr data, w2)"
    using fetch_date_range_total [OF assms] by blast
  have ind: "fst (fetch_date_range env f ticker start (Some stop) w0) = Inr data"
    using fetch_date_range_fst_indep [of env f ticker start "Some stop" w0 ?w1] fr by simp
  have c2: "count_list (trace w2) (Sleep 1000) = count_list (trace w) (Sleep 1000)"
    using fetch_date_range_count [OF fr, of "Sleep 1000"] by simp
  let ?w3 = "if data \<noteq> []
             then log INFO (''Completed '' @ ticker @ '': '' @ str_nat (length data)
                    @ '' days, '' @ str_nat (sum_list (map (\<lambda>(d, df). length df) data))
                    @ '' records'') w2
             else log WARNING (''No data retrieved for '' @ ticker) w2"
  have eq: "fetch_ticker env f start stop n idx ticker results w
             = (Inr (AList.update ticker data results), emit (Sleep 1000) ?w3)"
    using fr by (simp add: fetch_ticker_eq_body ticker_body_def Let_def)
  have c3: "count_list (trace ?w3) (Sleep 1000) = count_list (trace w) (Sleep 1000)"
    using c2 by simp
  show ?thesis
    by (intro exI [of _ data] exI [of _ ?w3] conjI eq ind c3)
qed

lemma fetch_tickers_ok:
  assumes "raises_only_Exceptions env"
  shows "\<exists>results' w'.
           fetch_tickers env f start stop n idx tickers results w = (Inr results', w')
           \<and> fst ` set results' = fst ` set results \<union> set tickers
           \<and> (distinct (map fst results) \<longrightarrow> distinct (map fst results'))
           \<and> (\<forall>k. k \<notin> set tickers \<longrightarrow> map_of results' k = map_of results k)
           \<and> (\<forall>t data. t \<in> set tickers
                 \<and> fst (fetch_date_range env f t start (Some stop) w0) = Inr data
                 \<longrightarrow> map_of results' t = Some data)
           \<and> count_list (trace w') (Sleep 1000)
               = count_list (trace w) (Sleep 1000) + length tickers"
proof (induction tickers arbitrary: idx results w)
  case Nil
  then show ?case by simp
next
  case (Cons t ts)
  from fetch_ticker_ok [OF assms, of f start stop n idx t results w w0]
  obtain data w3 where st: "fetch_ticker env f start stop n idx t results w
             = (Inr (AList.update t data results), emit (Sleep 1000) w3)
           \<and> fst (fetch_date_range env f t start (Some stop) w0) = Inr data
           \<and> count_list (trace w3) (Sleep 1000) = count_list (trace w) (Sleep 1000)"
    by (elim exE) (rule that)
  note step = st [THEN conjunct1]
  note dat = st [THEN conjunct2, THEN conjunct1]
  note c3 = st [THEN conjunct2, THEN conjunct2]
  let ?r1 = "AList.update t data results"
  let ?w1 = "emit (Sleep 1000) w3"
  from Cons.IH [of "Suc idx" ?r1 ?w1]
  obtain results' w' where ih:
    "fetch_tickers env f start stop n (Suc idx) ts ?r1 ?w1 = (Inr results', w')
     \<and> fst ` set results' = fst ` set ?r1 \<union> set ts
     \<and> (distinct (map fst ?r1) \<longrightarrow> distinct (map fst results'))
     \<and> (\<forall>k. k \<notin> set ts \<longrightarrow> map_of results' k = map_of ?r1 k)
     \<and> (\<forall>t data. t \<in> set ts
                 \<and> fst (fetch_date_range env f t start (Some stop) w0) = Inr data
                 \<longrightarrow> map_of results' t = Some data)
     \<and> count_list (trace w') (Sleep 1000)
               = count_list (trace ?w1) (Sleep 1000) + length ts"
    by (elim exE) (rule that)
  note run = ih [THEN conjunct1]
  note keys = ih [THEN conjunct2, THEN conjunct1]
  note dist = ih [THEN conjunct2, THEN conjunct2, THEN conjunct1]
  note keep = ih [THEN conjunct2, THEN conjunct2, THEN conjunct2, THEN conjunct1]
  note ent = ih [THEN conjunct2, THEN conjunct2, THEN conjunct2, THEN conjunct2, THEN conjunct1]
  note cnt = ih [THEN conjunct2, THEN conjunct2, THEN conjunct2, THEN conjunct2, THEN conjunct2]
  have 1: "fetch_tickers env f start stop n idx (t # ts) results w = (Inr results', w')"
    using step run by simp
  have 2: "fst ` set results' = fst ` set results \<union> set (t # ts)"
    using keys by (auto simp: dom_update)
  have 3: "distinct (map fst results) \<longrightarrow> distinct (map fst results')"
    using dist by (simp add: distinct_update)
  have 4: "\<forall>k. k \<notin> set (t # ts) \<longrightarrow> map_of results' k = map_of results k"
    using keep by (simp add: update_conv')
  have 5: "\<forall>u data'. u \<in> set (t # ts)
                 \<and> fst (fetch_date_range env f u start (Some stop) w0) = Inr data'
                 \<longrightarrow> map_of results' u = Some data'"
  proof (intro allI impI)
    fix u data'
    assume a: "u \<in> set (t # ts)
                 \<and> fst (fetch_date_range env f u start (Some stop) w0) = Inr data'"
    show "map_of results' u = Some data'"
    proof (cases "u \<in> set ts")
      case True
      then show ?thesis using ent a by blast
    next
      case False
      then have "u = t" using a by simp
      then have "data' = data" using a dat by simp
      then show ?thesis using keep False \<open>u = t\<close> by (simp add: update_conv')
    qed
  qed
  have 6: "count_list (trace w') (Sleep 1000)
               = count_list (trace w) (Sleep 1000) + length (t # ts)"
    using cnt c3 by simp
  show ?case
    by (intro exI [of _ results'] exI [of _ w'] conjI 1 2 3 4 5 6)
qed

lemma fetch_day_all_raise:
  assumes "\<And>d h m. \<exists>msg. reqHistoricalData env ticker d h m = Inl (Exception msg)"
  shows "fst (fetch_day env f ticker d r w) = Inr r"
proof (cases "end_time f")
  case (Inl e)
  then have "is_Exception e" by (auto simp: end_time_def split: list.splits if_splits)
  then show ?thesis using Inl by (simp add: fetch_day_def day_body_def)
next
  case (Inr hm)
  obtain h m where hm: "hm = (h, m)" by (cases hm) auto
  obtain msg where "reqHistoricalData env ticker d h m = Inl (Exception msg)"
    using assms by blast
  then show ?thesis using Inr hm by (simp add: fetch_day_def day_body_def Let_def)
qed

lemma fetch_days_all_raise:
  assumes "\<And>d h m. \<exists>msg. reqHistoricalData env ticker d h m = Inl (Exception msg)"
  shows "fst (fetch_days env f ticker ds r w) = Inr r"
proof (induction ds arbitrary: w)
  case Nil
  then show ?case by simp
next
  case (Cons d ds)
  obtain w1 where "fetch_day env f ticker d r w = (Inr r, w1)"
    using fetch_day_all_raise [OF assms, of f d r w]
    by (cases "fetch_day env f ticker d r w") auto
  then show ?case using Cons.IH [of w1] by simp
qed

lemma fetch_date_range_all_raise:
  assumes "raises_only_Exceptions env"
    and "\<And>d h m. \<exists>msg. reqHistoricalData env ticker d h m = Inl (Exception msg)"
  shows "fst (fetch_date_range env f ticker sd ed w) = Inr []"
proof -
  obtain data w' where run: "fetch_date_range env f ticker sd ed w = (Inr data, w')"
    using fetch_date_range_total [OF assms(1)] by blast
  have "data = []"
  proof (rule ccontr)
    assume "data \<noteq> []"
    then obtain days where "fetch_days env f ticker days [] w = (Inr data, w')"
      using fetch_date_range_Inr_cases [OF run] by blast
    then show False
      using fetch_days_all_raise [OF assms(2), of f days "[]" w] \<open>data \<noteq> []\<close> by simp
  qed
  then show ?thesis using run by simp
qed

lemma fetch_tickers_no_disconnect:
  assumes "fetch_tickers env f start stop n idx tickers results w = (res, w')"
  shows "count_list (trace w') IBDisconnect = count_list (trace w) IBDisconnect"
proof -
  obtain evs where "trace w' = trace w @ evs"
    "list_all (\<lambda>e. fetch_event e \<or> e = Sleep 1000) evs"
    using fetch_tickers_events [OF assms] by blast
  then show ?thesis using count_no_disconnect [of evs] by simp
qed

lemma load_tickers_trace:
  "load_tickers env bf w = (res, w') \<Longrightarrow>
     count_list (trace w') IBDisconnect = count_list (trace w) IBDisconnect
     \<and> count_list (trace w') (Sleep 1000) = count_list (trace w) (Sleep 1000)"
  by (auto simp: load_tickers_def Let_def split: sum.splits if_splits)

lemma load_tickers_ok:
  "read_csv_Ticker env (tickers_file bf) = Inr tickers \<Longrightarrow>
     \<exists>w'. load_tickers env bf w = (Inr tickers, w')"
  by (simp add: load_tickers_def Let_def)

lemma connect_ok:
  "ib_connect env ''127.0.0.1'' port client_id = None \<Longrightarrow>
     connect env port client_id f w
       = (Inr True, f\<lparr>connected := True\<rparr>,
          log INFO ''Successfully connected to IBKR''
            (emit (IBConnect ''127.0.0.1'' port client_id) w))"
  by (simp add: connect_def Let_def)

lemma fetch_tickers_from_empty:
  assumes "raises_only_Exceptions env"
  shows "\<exists>results w'.
           fetch_tickers env f start stop n idx tickers [] w = (Inr results, w')
           \<and> fst ` set results = set tickers
           \<and> distinct (map fst results)
           \<and> (\<forall>t data. t \<in> set tickers
                 \<and> fst (fetch_date_range env f t start (Some stop) w0) = Inr data
                 \<longrightarrow> map_of results t = Some data)
           \<and> count_list (trace w') (Sleep 1000)
               = count_list (trace w) (Sleep 1000) + length tickers"
  using fetch_tickers_ok [OF assms, of f start stop n idx tickers "[]" w w0]
  apply simp
  apply (elim exE conjE)
  apply (intro exI conjI)
      apply assumption+
  done

text \<open>
  C4. Once the gateway has accepted the connection, \<open>fetch_all\<close> ends with exactly one
  disconnect, as its last action and with the flag cleared, whatever the outside world
  does afterwards: whether the loop runs to its end or an error that nothing handles
  (an interrupt) cuts the batch short. When every error raised is an exception and the
  manifest can be read, the call returns a mapping whose keys are exactly the tickers of
  the manifest; the entry of a ticker is what \<open>fetch_date_range\<close> returns for it, and it is
  the empty mapping for a ticker all of whose requests raise. No exception reaches the
  handler of the loop over the tickers (the one place that would leave a ticker without
  an entry), since \<open>fetch_date_range\<close> catches every exception itself: an iteration
  with the handler is the iteration without it.
\<close>

theorem fetch_all_entries_and_disconnect:
  assumes "ib_connect env ''127.0.0.1'' 7496 1 = None"
  shows "(\<exists>r bf' w'. fetch_all env bf start_date end_date w = (r, bf', w')
           \<and> count_list (trace w') IBDisconnect = count_list (trace w) IBDisconnect + 1
           \<and> last (trace w') = IBDisconnect
           \<and> \<not> connected (fetcher bf')
           \<and> (raises_only_Exceptions env \<and> read_csv_Ticker env (tickers_file bf) = Inr tickers
                \<longrightarrow> (\<exists>results. r = Inr results
                       \<and> fst ` set results = set tickers \<and> distinct (map fst results)
                       \<and> (\<forall>t data. t \<in> set tickers
                             \<and> fst (fetch_date_range env ((fetcher bf)\<lparr>connected := True\<rparr>) t
                                      (dashed start_date) (Some (dashed end_date)) w0) = Inr data
                             \<longrightarrow> map_of results t = Some data)
                       \<and> (\<forall>t. t \<in> set tickers
                             \<and> (\<forall>d h m. \<exists>msg. reqHistoricalData env t d h m
                                                = Inl (Exception msg))
                             \<longrightarrow> map_of results t = Some []))))
         \<and> fetch_ticker env f start stop n idx ticker batch w1
             = ticker_body env f start stop n idx ticker batch w1"
proof -
  let ?f1 = "(fetcher bf)\<lparr>connected := True\<rparr>"
  let ?w1 = "log INFO ''Successfully connected to IBKR''
               (emit (IBConnect ''127.0.0.1'' 7496 1) w)"
  let ?bf1 = "bf\<lparr>fetcher := ?f1\<rparr>"
  let ?start = "dashed start_date"
  let ?stop = "dashed end_date"
  note con = connect_ok [OF assms, of "fetcher bf" w]
  obtain lr w2 where lt: "load_tickers env ?bf1 w1' = (lr, w2)" if "w1' = ?w1" for w1'
    by (cases "load_tickers env ?bf1 ?w1") auto
  have lt1: "load_tickers env ?bf1 ?w1 = (lr, w2)" using lt by simp
  define body where "body =
    (case lr of Inl e \<Rightarrow> (Inl e, w2)
     | Inr tickers \<Rightarrow> fetch_tickers env ?f1 ?start ?stop (length tickers) 1 tickers [] w2)"
  obtain r w3 where b: "body = (r, w3)" by (cases body) auto
  have res: "fetch_all env bf start_date end_date w
               = (r, bf\<lparr>fetcher := ?f1\<lparr>connected := False\<rparr>\<rparr>, emit IBDisconnect w3)"
    using con lt1 b by (simp add: fetch_all_def Let_def body_def disconnect_def)
  have c2: "count_list (trace w2) IBDisconnect = count_list (trace w) IBDisconnect"
    using load_tickers_trace [OF lt1] by simp
  have c3: "count_list (trace w3) IBDisconnect = count_list (trace w) IBDisconnect"
  proof (cases lr)
    case (Inl e)
    then show ?thesis using b c2 by (simp add: body_def)
  next
    case (Inr ts)
    then have "fetch_tickers env ?f1 ?start ?stop (length ts) 1 ts [] w2 = (r, w3)"
      using b by (simp add: body_def)
    from fetch_tickers_no_disconnect [OF this] c2 show ?thesis by simp
  qed
  have part: "raises_only_Exceptions env \<and> read_csv_Ticker env (tickers_file bf) = Inr tickers
                \<longrightarrow> (\<exists>results. r = Inr results
                       \<and> fst ` set results = set tickers \<and> distinct (map fst results)
                       \<and> (\<forall>t data. t \<in> set tickers
                             \<and> fst (fetch_date_range env ?f1 t ?start (Some ?stop) w0) = Inr data
                             \<longrightarrow> map_of results t = Some data)
                       \<and> (\<forall>t. t \<in> set tickers
                             \<and> (\<forall>d h m. \<exists>msg. reqHistoricalData env t d h m
                                                = Inl (Exception msg))
                             \<longrightarrow> map_of results t = Some []))"
  proof
    assume a: "raises_only_Exceptions env \<and> read_csv_Ticker env (tickers_file bf) = Inr tickers"
    then have only: "raises_only_Exceptions env" by simp
    have "lr = Inr tickers" using a lt1 load_tickers_ok [of env ?bf1 tickers ?w1] by auto
    then have bd: "fetch_tickers env ?f1 ?start ?stop (length tickers) 1 tickers [] w2 = (r, w3)"
      using b by (simp add: body_def)
    from fetch_tickers_from_empty [OF only, of ?f1 ?start ?stop "length tickers" 1 tickers w2 w0]
    obtain results w' where ok:
      "fetch_tickers env ?f1 ?start ?stop (length tickers) 1 tickers [] w2 = (Inr results, w')
       \<and> fst ` set results = set tickers
       \<and> distinct (map fst results)
       \<and> (\<forall>t data. t \<in> set tickers
             \<and> fst (fetch_date_range env ?f1 t ?start (Some ?stop) w0) = Inr data
             \<longrightarrow> map_of results t = Some data)
       \<and> count_list (trace w') (Sleep 1000)
           = count_list (trace w2) (Sleep 1000) + length tickers"
      by (elim exE) (rule that, assumption)
    have r: "r = Inr results" using ok bd by simp
    have keys: "fst ` set results = set tickers" "distinct (map fst results)"
      using ok by simp_all
    have ent: "\<forall>t data. t \<in> set tickers
             \<and> fst (fetch_date_range env ?f1 t ?start (Some ?stop) w0) = Inr data
             \<longrightarrow> map_of results t = Some data"
      using ok by blast
    have bad: "\<forall>t. t \<in> set tickers
                 \<and> (\<forall>d h m. \<exists>msg. reqHistoricalData env t d h m = Inl (Exception msg))
                 \<longrightarrow> map_of results t = Some []"
    proof (intro allI impI)
      fix t
      assume t: "t \<in> set tickers
                 \<and> (\<forall>d h m. \<exists>msg. reqHistoricalData env t d h m = Inl (Exception msg))"
      then have "fst (fetch_date_range env ?f1 t ?start (Some ?stop) w0) = Inr []"
        using fetch_date_range_all_raise [OF only, of t ?f1 ?start "Some ?stop" w0] by blast
      then show "map_of results t = Some []" using ent t by blast
    qed
    show "\<exists>results. r = Inr results
             \<and> fst ` set results = set tickers \<and> distinct (map fst results)
             \<and> (\<forall>t data. t \<in> set tickers
                   \<and> fst (fetch_date_range env ?f1 t ?start (Some ?stop) w0) = Inr data
                   \<longrightarrow> map_of results t = Some data)
             \<and> (\<forall>t. t \<in> set tickers
                   \<and> (\<forall>d h m. \<exists>msg. reqHistoricalData env t d h m = Inl (Exception msg))
                   \<longrightarrow> map_of results t = Some [])"
      by (intro exI [of _ results] conjI r keys ent bad)
  qed
  have 1: "count_list (trace (emit IBDisconnect w3)) IBDisconnect
             = count_list (trace w) IBDisconnect + 1"
    using c3 by simp
  have 2: "last (trace (emit IBDisconnect w3)) = IBDisconnect" by simp
  have 3: "\<not> connected (fetcher (bf\<lparr>fetcher := ?f1\<lparr>connected := False\<rparr>\<rparr>))" by simp
  show ?thesis
    by (intro exI [of _ r] exI [of _ "bf\<lparr>fetcher := ?f1\<lparr>connected := False\<rparr>\<rparr>"]
        exI [of _ "emit IBDisconnect w3"] conjI res 1 2 3 part fetch_ticker_eq_body)
qed

lemma demo_BBB_raises:
  "\<forall>d h m. \<exists>msg. reqHistoricalData demo_env ''BBB'' d h m = Inl (Exception msg)"
  by (simp add: demo_env_simps)

theorem fetch_all_entries_and_disconnect_witness:
  "ib_connect demo_env ''127.0.0.1'' 7496 1 = None
   \<and> raises_only_Exceptions demo_env
   \<and> read_csv_Ticker demo_env (tickers_file demo_batch) = Inr [''AAA'', ''BBB'', ''CCC'']
   \<and> reqHistoricalData demo_env ''BBB'' 19725 16 0
       = Inl (Exception ''No security definition has been found'')
   \<and> (\<exists>r bf' w'.
         fetch_all demo_env demo_batch ''20240103'' ''20240109'' demo_world = (r, bf', w')
         \<and> count_list (trace w') IBDisconnect = count_list (trace demo_world) IBDisconnect + 1
         \<and> last (trace w') = IBDisconnect
         \<and> \<not> connected (fetcher bf')
         \<and> (\<exists>results. r = Inr results
               \<and> fst ` set results = set [''AAA'', ''BBB'', ''CCC'']
               \<and> distinct (map fst results)
               \<and> map_of results ''BBB'' = Some []))"
proof -
  have h: "ib_connect demo_env ''127.0.0.1'' 7496 1 = None" by (simp add: demo_env_simps)
  have rd: "read_csv_Ticker demo_env (tickers_file demo_batch) = Inr [''AAA'', ''BBB'', ''CCC'']"
    by (simp add: demo_env_simps)
  have bbb: "reqHistoricalData demo_env ''BBB'' 19725 16 0
       = Inl (Exception ''No security definition has been found'')"
    by (simp add: demo_env_simps)
  from fetch_all_entries_and_disconnect [OF h, of demo_batch "''20240103''" "''20240109''"
      demo_world "[''AAA'', ''BBB'', ''CCC'']" demo_world, THEN conjunct1]
  obtain r bf' w' where t:
    "fetch_all demo_env demo_batch ''20240103'' ''20240109'' demo_world = (r, bf', w')
     \<and> count_list (trace w') IBDisconnect = count_list (trace demo_world) IBDisconnect + 1
     \<and> last (trace w') = IBDisconnect
     \<and> \<not> connected (fetcher bf')
     \<and> (raises_only_Exceptions demo_env
          \<and> read_csv_Ticker demo_env (tickers_file demo_batch) = Inr [''AAA'', ''BBB'', ''CCC'']
          \<longrightarrow> (\<exists>results. r = Inr results
                 \<and> fst ` set results = set [''AAA'', ''BBB'', ''CCC'']
                 \<and> distinct (map fst results)
                 \<and> (\<forall>t data. t \<in> set [''AAA'', ''BBB'', ''CCC'']
                       \<and> fst (fetch_date_range demo_env ((fetcher demo_batch)\<lparr>connected := True\<rparr>)
                                t (dashed ''20240103'') (Some (dashed ''20240109'')) demo_world)
                           = Inr data
                       \<longrightarrow> map_of results t = Some data)
                 \<and> (\<forall>t. t \<in> set [''AAA'', ''BBB'', ''CCC'']
                       \<and> (\<forall>d h m. \<exists>msg. reqHistoricalData demo_env t d h m
                                          = Inl (Exception msg))
                       \<longrightarrow> map_of results t = Some [])))"
    by (elim exE) (rule that, assumption)
  from t [THEN conjunct2, THEN conjunct2, THEN conjunct2, THEN conjunct2]
    demo_raises_only_Exceptions rd
  obtain results where res: "r = Inr results"
    "fst ` set results = set [''AAA'', ''BBB'', ''CCC'']" "distinct (map fst results)"
    and bad: "\<forall>t. t \<in> set [''AAA'', ''BBB'', ''CCC'']
                       \<and> (\<forall>d h m. \<exists>msg. reqHistoricalData demo_env t d h m
                                          = Inl (Exception msg))
                       \<longrightarrow> map_of results t = Some []"
    by blast
  have "map_of results ''BBB'' = Some []"
    using bad demo_BBB_raises by simp
  then have inner: "\<exists>results. r = Inr results
               \<and> fst ` set results = set [''AAA'', ''BBB'', ''CCC'']
               \<and> distinct (map fst results)
               \<and> map_of results ''BBB'' = Some []"
    using res by blast
  have "\<exists>r bf' w'.
         fetch_all demo_env demo_batch ''20240103'' ''20240109'' demo_world = (r, bf', w')
         \<and> count_list (trace w') IBDisconnect = count_list (trace demo_world) IBDisconnect + 1
         \<and> last (trace w') = IBDisconnect
         \<and> \<not> connected (fetcher bf')
         \<and> (\<exists>results. r = Inr results
               \<and> fst ` set results = set [''AAA'', ''BBB'', ''CCC'']
               \<and> distinct (map fst results)
               \<and> map_of results ''BBB'' = Some [])"
    by (intro exI [of _ r] exI [of _ bf'] exI [of _ w'] conjI t [THEN conjunct1]
        t [THEN conjunct2, THEN conjunct1] t [THEN conjunct2, THEN conjunct2, THEN conjunct1]
        t [THEN conjunct2, THEN conjunct2, THEN conjunct2, THEN conjunct1] inner)
  then show ?thesis using h demo_raises_only_Exceptions rd bbb by blast
qed

lemma fetch_all_loaded:
  assumes "ib_connect env ''127.0.0.1'' 7496 1 = None"
    and "read_csv_Ticker env (tickers_file bf) = Inr tickers"
    and "fetch_tickers env ((fetcher bf)\<lparr>connected := True\<rparr>) (dashed start_date)
           (dashed end_date) (length tickers) 1 tickers []
           (log INFO (''Loaded '' @ str_nat (length tickers) @ '' tickers from ''
                        @ str_path (tickers_file bf))
              (emit (ReadCsv (tickers_file bf))
                 (log INFO ''Successfully connected to IBKR''
                    (emit (IBConnect ''127.0.0.1'' 7496 1) w)))) = (r, w3)"
  shows "fetch_all env bf start_date end_date w
           = (r, bf\<lparr>fetcher := (fetcher bf)\<lparr>connected := False\<rparr>\<rparr>, emit IBDisconnect w3)"
  using assms
  by (simp add: fetch_all_def connect_def load_tickers_def disconnect_def Let_def)

text \<open>
  C5. In an outside world that raises exceptions only, the iteration of every ticker
  of \<open>fetch_all\<close> ends with the one-second sleep, whether data came back for the ticker
  or every request for it failed: the iteration records the ticker's result, logs the
  summary or the warning, sleeps, and only then does the loop go on with the tickers that
  follow. A whole batch sleeps once for each ticker of the manifest. The handler of the
  loop, which logs and goes on without sleeping, is never entered: no exception reaches
  it, since \<open>fetch_date_range\<close> catches every exception itself, so an iteration with
  the handler is the iteration without it.
\<close>

theorem fetch_all_delay_after_every_ticker:
  assumes "raises_only_Exceptions env"
  shows "(\<exists>data w3.
            fetch_ticker env f start stop n idx ticker results w1
              = (Inr (AList.update ticker data results), emit (Sleep 1000) w3)
            \<and> fst (fetch_date_range env f ticker start (Some stop) w0) = Inr data
            \<and> count_list (trace w3) (Sleep 1000) = count_list (trace w1) (Sleep 1000)
            \<and> fetch_tickers env f start stop n idx (ticker # rest) results w1
                = fetch_tickers env f start stop n (Suc idx) rest
                    (AList.update ticker data results) (emit (Sleep 1000) w3))
         \<and> (ib_connect env ''127.0.0.1'' 7496 1 = None
              \<and> read_csv_Ticker env (tickers_file bf) = Inr tickers
            \<longrightarrow> (\<exists>batch bf' w'.
                   fetch_all env bf start_date end_date w = (Inr batch, bf', w')
                   \<and> count_list (trace w') (Sleep 1000)
                       = count_list (trace w) (Sleep 1000) + length tickers))
         \<and> fetch_ticker env f start stop n idx ticker results w1
             = ticker_body env f start stop n idx ticker results w1"
proof (intro conjI impI)
  show "fetch_ticker env f start stop n idx ticker results w1
             = ticker_body env f start stop n idx ticker results w1"
    by (rule fetch_ticker_eq_body)
next
  from fetch_ticker_ok [OF assms, of f start stop n idx ticker results w1 w0]
  obtain data w3 where st:
    "fetch_ticker env f start stop n idx ticker results w1
       = (Inr (AList.update ticker data results), emit (Sleep 1000) w3)
     \<and> fst (fetch_date_range env f ticker start (Some stop) w0) = Inr data
     \<and> count_list (trace w3) (Sleep 1000) = count_list (trace w1) (Sleep 1000)"
    by (elim exE) (rule that, assumption)
  have next_ticker: "fetch_tickers env f start stop n idx (ticker # rest) results w1
                = fetch_tickers env f start stop n (Suc idx) rest
                    (AList.update ticker data results) (emit (Sleep 1000) w3)"
    using st by simp
  show "\<exists>data w3.
            fetch_ticker env f start stop n idx ticker results w1
              = (Inr (AList.update ticker data results), emit (Sleep 1000) w3)
            \<and> fst (fetch_date_range env f ticker start (Some stop) w0) = Inr data
            \<and> count_list (trace w3) (Sleep 1000) = count_list (trace w1) (Sleep 1000)
            \<and> fetch_tickers env f start stop n idx (ticker # rest) results w1
                = fetch_tickers env f start stop n (Suc idx) rest
                    (AList.update ticker data results) (emit (Sleep 1000) w3)"
    by (intro exI [of _ data] exI [of _ w3] conjI st [THEN conjunct1]
        st [THEN conjunct2, THEN conjunct1] st [THEN conjunct2, THEN conjunct2] next_ticker)
next
  assume a: "ib_connect env ''127.0.0.1'' 7496 1 = None
              \<and> read_csv_Ticker env (tickers_file bf) = Inr tickers"
  let ?f1 = "(fetcher bf)\<lparr>connected := True\<rparr>"
  let ?w2 = "log INFO (''Loaded '' @ str_nat (length tickers) @ '' tickers from ''
                        @ str_path (tickers_file bf))
              (emit (ReadCsv (tickers_file bf))
                 (log INFO ''Successfully connected to IBKR''
                    (emit (IBConnect ''127.0.0.1'' 7496 1) w)))"
  from fetch_tickers_from_empty [OF assms, of ?f1 "dashed start_date" "dashed end_date"
      "length tickers" 1 tickers ?w2 w]
  obtain batch w3 where run:
    "fetch_tickers env ?f1 (dashed start_date) (dashed end_date) (length tickers) 1 tickers []
       ?w2 = (Inr batch, w3)"
    and cnt: "count_list (trace w3) (Sleep 1000)
               = count_list (trace ?w2) (Sleep 1000) + length tickers"
    by blast
  have eq: "fetch_all env bf start_date end_date w
           = (Inr batch, bf\<lparr>fetcher := (fetcher bf)\<lparr>connected := False\<rparr>\<rparr>, emit IBDisconnect w3)"
    using fetch_all_loaded [OF a [THEN conjunct1] a [THEN conjunct2] run] .
  have c: "count_list (trace (emit IBDisconnect w3)) (Sleep 1000)
             = count_list (trace w) (Sleep 1000) + length tickers"
    using cnt by simp
  show "\<exists>batch bf' w'.
           fetch_all env bf start_date end_date w = (Inr batch, bf', w')
           \<and> count_list (trace w') (Sleep 1000)
               = count_list (trace w) (Sleep 1000) + length tickers"
    by (intro exI [of _ batch] exI [of _ "bf\<lparr>fetcher := (fetcher bf)\<lparr>connected := False\<rparr>\<rparr>"]
        exI [of _ "emit IBDisconnect w3"] conjI eq c)
qed

theorem fetch_all_delay_after_every_ticker_witness:
  "raises_only_Exceptions demo_env
   \<and> ib_connect demo_env ''127.0.0.1'' 7496 1 = None
   \<and> read_csv_Ticker demo_env (tickers_file demo_batch) = Inr [''AAA'', ''BBB'', ''CCC'']
   \<and> reqHistoricalData demo_env ''BBB'' 19725 16 0
       = Inl (Exception ''No security definition has been found'')
   \<and> (\<exists>data w3.
         fetch_ticker demo_env demo_fetcher ''2024-01-03'' ''2024-01-09'' 3 2 ''BBB'' []
             demo_world
           = (Inr (AList.update ''BBB'' data []), emit (Sleep 1000) w3)
         \<and> fst (fetch_date_range demo_env demo_fetcher ''BBB'' ''2024-01-03''
                  (Some ''2024-01-09'') demo_world) = Inr data
         \<and> count_list (trace w3) (Sleep 1000) = count_list (trace demo_world) (Sleep 1000)
         \<and> fetch_tickers demo_env demo_fetcher ''2024-01-03'' ''2024-01-09'' 3 2
               (''BBB'' # [''CCC'']) [] demo_world
             = fetch_tickers demo_env demo_fetcher ''2024-01-03'' ''2024-01-09'' 3 (Suc 2)
                 [''CCC''] (AList.update ''BBB'' data []) (emit (Sleep 1000) w3))
   \<and> (\<exists>batch bf' w'.
         fetch_all demo_env demo_batch ''20240103'' ''20240109'' demo_world = (Inr batch, bf', w')
         \<and> count_list (trace w') (Sleep 1000)
             = count_list (trace demo_world) (Sleep 1000) + length [''AAA'', ''BBB'', ''CCC''])"
proof -
  have h: "ib_connect demo_env ''127.0.0.1'' 7496 1 = None" by (simp add: demo_env_simps)
  have rd: "read_csv_Ticker demo_env (tickers_file demo_batch) = Inr [''AAA'', ''BBB'', ''CCC'']"
    by (simp add: demo_env_simps)
  have bbb: "reqHistoricalData demo_env ''BBB'' 19725 16 0
       = Inl (Exception ''No security definition has been found'')"
    by (simp add: demo_env_simps)
  note t = fetch_all_delay_after_every_ticker [OF demo_raises_only_Exceptions,
      of demo_fetcher "''2024-01-03''" "''2024-01-09''" 3 2 "''BBB''" "[]" demo_world demo_world
      "[''CCC'']" demo_batch "[''AAA'', ''BBB'', ''CCC'']" "''20240103''" "''20240109''"
      demo_world]
  have second: "\<exists>batch bf' w'.
         fetch_all demo_env demo_batch ''20240103'' ''20240109'' demo_world = (Inr batch, bf', w')
         \<and> count_list (trace w') (Sleep 1000)
             = count_list (trace demo_world) (Sleep 1000) + length [''AAA'', ''BBB'', ''CCC'']"
    using t [THEN conjunct2, THEN conjunct1] h rd by blast
  show ?thesis
    by (intro conjI demo_raises_only_Exceptions h rd bbb t [THEN conjunct1] second)
qed

section \<open>The settings and the command line\<close>

text \<open>
  C8. The retry count and the retry delay of the settings are dead configuration: a run
  of the single-ticker tool or of the batch tool with other values of \<open>default_retries\<close>
  and \<open>retry_delay\<close>, everything else being equal, is the same run. It ends the same way
  and leaves the same trace (the same requests, sleeps and log records) and the same
  files. The settings reach the fetchers through their constructors only, and these give
  the same fetcher; \<open>connect\<close>, \<open>fetch_date_range\<close>, \<open>_save_data\<close> and \<open>fetch_all\<close> take no
  settings at all.
\<close>

theorem retry_settings_unused:
  "main env (st\<lparr>DATA_SETTINGS := (DATA_SETTINGS st)\<lparr>default_retries := retries,
        retry_delay := delay\<rparr>\<rparr>) argv w = main env st argv w
   \<and> batch_main env (st\<lparr>DATA_SETTINGS := (DATA_SETTINGS st)\<lparr>default_retries := retries,
        retry_delay := delay\<rparr>\<rparr>) argv w = batch_main env st argv w
   \<and> IBKRFetcher_init env (st\<lparr>DATA_SETTINGS := (DATA_SETTINGS st)\<lparr>default_retries := retries,
        retry_delay := delay\<rparr>\<rparr>) save_dir_arg w = IBKRFetcher_init env st save_dir_arg w
   \<and> BatchFetcher_init env (st\<lparr>DATA_SETTINGS := (DATA_SETTINGS st)\<lparr>default_retries := retries,
        retry_delay := delay\<rparr>\<rparr>) w = BatchFetcher_init env st w"
proof -
  let ?st = "st\<lparr>DATA_SETTINGS := (DATA_SETTINGS st)\<lparr>default_retries := retries,
        retry_delay := delay\<rparr>\<rparr>"
  have i: "\<And>a v. IBKRFetcher_init env ?st a v = IBKRFetcher_init env st a v"
    by (simp add: IBKRFetcher_init_def Let_def split: option.splits sum.splits)
  have b: "\<And>v. BatchFetcher_init env ?st v = BatchFetcher_init env st v"
    by (simp add: BatchFetcher_init_def i split: prod.splits sum.splits)
  have m: "main env ?st argv w = main env st argv w"
    unfolding main_def main_body_def i by (rule refl)
  have bm: "batch_main env ?st argv w = batch_main env st argv w"
    unfolding batch_main_def batch_main_body_def b by (rule refl)
  show ?thesis using i b m bm by simp
qed

lemma list_index_absent: "x \<notin> set xs \<Longrightarrow> list_index x xs = None"
  by (induction xs) auto





lemma get_ticker_first_flag_wins:
  "get_ticker [''ibkr_fetcher.py'', ''20240103'', ''--ticker'', ''AAPL'', ''--ticker''] = ''AAPL''"
  by (simp add: get_ticker_def)




end
